theory Spec2Isabelle
  imports Main "HOL-Library.AList"
begin

section \<open>JavaScript values\<close>

text \<open>
  The payloads handed to the validators of \<^verbatim>\<open>protocol.js\<close> are plain JSON-like
  values. Numbers are kept as integers (only their truthiness is ever inspected), objects
  are field lists, and no value is callable. A string is the list of its UTF-16 code
  units, each a character; the strings represented are those whose code units are all
  below 256.
\<close>

datatype jsval =
    JUndefined
  | JNull
  | JBool bool
  | JNum int
  | JStr string
  | JObj "(string \<times> jsval) list"

text \<open>\<^verbatim>\<open>!v\<close> is \<open>\<not> truthy v\<close>.\<close>

fun truthy :: "jsval \<Rightarrow> bool" where
  "truthy JUndefined = False"
| "truthy JNull = False"
| "truthy (JBool b) = b"
| "truthy (JNum n) = (n \<noteq> 0)"
| "truthy (JStr s) = (s \<noteq> [])"
| "truthy (JObj fs) = True"

text \<open>\<^verbatim>\<open>typeof v === 'string'\<close>, \<^verbatim>\<open>typeof v === 'object'\<close> (true of \<^verbatim>\<open>null\<close>),
  \<^verbatim>\<open>typeof v === 'boolean'\<close>.\<close>

fun isStringType :: "jsval \<Rightarrow> bool" where
  "isStringType (JStr s) = True"
| "isStringType _ = False"

fun isObjectType :: "jsval \<Rightarrow> bool" where
  "isObjectType JNull = True"
| "isObjectType (JObj fs) = True"
| "isObjectType _ = False"

fun isBooleanType :: "jsval \<Rightarrow> bool" where
  "isBooleanType (JBool b) = True"
| "isBooleanType _ = False"

text \<open>Property read \<^verbatim>\<open>v.f\<close>; every call site has already checked that \<open>v\<close> is a
  non-null object, and a missing property reads as \<^verbatim>\<open>undefined\<close>.\<close>

fun getField :: "jsval \<Rightarrow> string \<Rightarrow> jsval" where
  "getField (JObj fs) f = (case map_of fs f of Some v \<Rightarrow> v | None \<Rightarrow> JUndefined)"
| "getField _ f = JUndefined"

text \<open>\<^verbatim>\<open>a || b\<close> on values.\<close>

definition orElse :: "jsval \<Rightarrow> jsval \<Rightarrow> jsval" where
  "orElse a b = (if truthy a then a else b)"

datatype exn = TypeError

text \<open>\<^verbatim>\<open>String.prototype.startsWith\<close> on two strings.\<close>

definition startsWith :: "string \<Rightarrow> string \<Rightarrow> bool" where
  "startsWith s p = (take (length p) s = p)"

text \<open>The method call \<^verbatim>\<open>v.startsWith(p)\<close> on an arbitrary value: anything but a string
  has no such method, and calling \<^verbatim>\<open>undefined\<close> raises a TypeError.\<close>

fun callStartsWith :: "jsval \<Rightarrow> string \<Rightarrow> exn + bool" where
  "callStartsWith (JStr s) p = Inr (startsWith s p)"
| "callStartsWith _ p = Inl TypeError"

text \<open>\<^verbatim>\<open>String.prototype.trim\<close> removes white space and line terminators from both
  ends. Among the code units below 256 these are tab, line feed, vertical tab, form feed,
  carriage return, space and the no-break space U+00A0.\<close>

definition isSpace :: "char \<Rightarrow> bool" where
  "isSpace c =
     (c \<in> set [CHR 0x09, CHR 0x0A, CHR 0x0B, CHR 0x0C, CHR 0x0D, CHR 0x20, CHR 0xA0])"

definition trim :: "string \<Rightarrow> string" where
  "trim s = rev (dropWhile isSpace (rev (dropWhile isSpace s)))"

section \<open>Protocol codec: \<^verbatim>\<open>protocol.js\<close>\<close>

subsection \<open>Phone numbers\<close>

definition isDigit :: "char \<Rightarrow> bool" where
  "isDigit c = (c \<in> set ''0123456789'')"

definition isDigit19 :: "char \<Rightarrow> bool" where
  "isDigit19 c = (c \<in> set ''123456789'')"

text \<open>
  \<^verbatim>\<open>/^\+[1-9]\d{1,14}$/.test(s)\<close>, read token by token: a literal plus sign, one
  character of the class \<^verbatim>\<open>[1-9]\<close>, then the greedy repetition \<^verbatim>\<open>\d{1,14}\<close>, which
  takes as many digits as there are, at most fourteen and at least one, and finally the
  end of the input. Since the repetition is followed by the end anchor, giving digits back
  cannot turn a failed match into a successful one.
\<close>

definition phoneRegex_test :: "string \<Rightarrow> bool" where
  "phoneRegex_test s =
     (case s of
        [] \<Rightarrow> False
      | c # r \<Rightarrow>
          c = CHR ''+'' \<and>
          (case r of
             [] \<Rightarrow> False
           | d # r' \<Rightarrow>
               isDigit19 d \<and>
               (let n = min 14 (length (takeWhile isDigit r'))
                in 1 \<le> n \<and> drop n r' = [])))"

definition isValidPhoneNumber :: "jsval \<Rightarrow> bool" where
  "isValidPhoneNumber phoneNumber =
     (if \<not> truthy phoneNumber \<or> \<not> isStringType phoneNumber then False
      else (case phoneNumber of JStr s \<Rightarrow> phoneRegex_test s | _ \<Rightarrow> False))"

text \<open>The phone-number format in the words of the specification: a plus sign followed by
  one to fifteen digits, the first of which is not zero.\<close>

definition spec_phone_format :: "string \<Rightarrow> bool" where
  "spec_phone_format s =
     (case s of
        [] \<Rightarrow> False
      | c # ds \<Rightarrow> c = CHR ''+'' \<and> 1 \<le> length ds \<and> length ds \<le> 15 \<and>
                 list_all isDigit ds \<and> isDigit19 (hd ds))"

text \<open>The format the regular expression accepts: as above, with two to fifteen digits.\<close>

definition e164_format :: "string \<Rightarrow> bool" where
  "e164_format s =
     (case s of
        [] \<Rightarrow> False
      | c # ds \<Rightarrow> c = CHR ''+'' \<and> 2 \<le> length ds \<and> length ds \<le> 15 \<and>
                 list_all isDigit ds \<and> isDigit19 (hd ds))"

subsection \<open>Validators of the send operations\<close>

datatype validation = Valid | Invalid string

definition phoneError :: string where
  "phoneError = ''Invalid phone number format. Use international format: +1234567890''"

definition validateSendMessageData :: "jsval \<Rightarrow> exn + validation" where
  "validateSendMessageData data =
     (if \<not> truthy data \<or> \<not> isObjectType data then Inr (Invalid ''Invalid data object'')
      else if \<not> isValidPhoneNumber (getField data ''phoneNumber'') then Inr (Invalid phoneError)
      else if \<not> truthy (getField data ''message'') \<or> \<not> isStringType (getField data ''message'')
              \<or> (case getField data ''message'' of JStr m \<Rightarrow> length (trim m) = 0 | _ \<Rightarrow> True)
           then Inr (Invalid ''Message cannot be empty'')
      else Inr Valid)"

definition validateSendImageData :: "jsval \<Rightarrow> exn + validation" where
  "validateSendImageData data =
     (if \<not> truthy data \<or> \<not> isObjectType data then Inr (Invalid ''Invalid data object'')
      else if \<not> isValidPhoneNumber (getField data ''phoneNumber'') then Inr (Invalid phoneError)
      else if \<not> truthy (getField data ''imageUrl'') \<and> \<not> truthy (getField data ''imageDataUrl'')
           then Inr (Invalid ''Either imageUrl or imageDataUrl is required'')
      else if truthy (getField data ''imageDataUrl'') then
        (case callStartsWith (getField data ''imageDataUrl'') ''data:image/'' of
           Inl e \<Rightarrow> Inl e
         | Inr b \<Rightarrow>
             if \<not> b then Inr (Invalid ''Invalid imageDataUrl format. Must start with data:image/'')
             else Inr Valid)
      else Inr Valid)"

definition validateSendVideoData :: "jsval \<Rightarrow> exn + validation" where
  "validateSendVideoData data =
     (if \<not> truthy data \<or> \<not> isObjectType data then Inr (Invalid ''Invalid data object'')
      else if \<not> isValidPhoneNumber (getField data ''phoneNumber'') then Inr (Invalid phoneError)
      else if \<not> truthy (getField data ''videoUrl'') \<and> \<not> truthy (getField data ''videoDataUrl'')
           then Inr (Invalid ''Either videoUrl or videoDataUrl is required'')
      else if truthy (getField data ''videoDataUrl'') then
        (case callStartsWith (getField data ''videoDataUrl'') ''data:video/'' of
           Inl e \<Rightarrow> Inl e
         | Inr b \<Rightarrow>
             if \<not> b then Inr (Invalid ''Invalid videoDataUrl format. Must start with data:video/'')
             else Inr Valid)
      else Inr Valid)"

definition validateSendDocumentData :: "jsval \<Rightarrow> exn + validation" where
  "validateSendDocumentData data =
     (if \<not> truthy data \<or> \<not> isObjectType data then Inr (Invalid ''Invalid data object'')
      else if \<not> isValidPhoneNumber (getField data ''phoneNumber'') then Inr (Invalid phoneError)
      else if \<not> truthy (getField data ''documentUrl'') \<and> \<not> truthy (getField data ''documentDataUrl'')
           then Inr (Invalid ''Either documentUrl or documentDataUrl is required'')
      else if \<not> truthy (getField data ''documentName'') \<or> \<not> isStringType (getField data ''documentName'')
           then Inr (Invalid ''documentName is required'')
      else Inr Valid)"

text \<open>What the specification asks of a media payload: exactly one of the fetchable
  reference and the embedded payload is present.\<close>

definition spec_exactly_one :: "jsval \<Rightarrow> jsval \<Rightarrow> bool" where
  "spec_exactly_one url dataUrl = (truthy url \<noteq> truthy dataUrl)"

text \<open>An embedded payload, when present, is a string with the given prefix.\<close>

definition embeddedOk :: "string \<Rightarrow> jsval \<Rightarrow> bool" where
  "embeddedOk p v = (\<not> truthy v \<or> (case v of JStr s \<Rightarrow> startsWith s p | _ \<Rightarrow> False))"

definition nonEmptyString :: "jsval \<Rightarrow> bool" where
  "nonEmptyString v = (case v of JStr s \<Rightarrow> s \<noteq> [] | _ \<Rightarrow> False)"

definition isObject :: "jsval \<Rightarrow> bool" where
  "isObject v = (case v of JObj fs \<Rightarrow> True | _ \<Rightarrow> False)"

section \<open>Runtime: promises, timers, connections\<close>

text \<open>An \<^verbatim>\<open>Error\<close> object: its \<^verbatim>\<open>code\<close> property when one was attached, and its
  message.\<close>

datatype failure = Failure (fcode: "string option") (fmessage: string) (fdetails: jsval)

text \<open>\<^verbatim>\<open>new Error(message)\<close> and \<^verbatim>\<open>utils.formatError(code, message, details)\<close>.\<close>

definition newError :: "string \<Rightarrow> failure" where
  "newError m = Failure None m JUndefined"

definition formatError :: "string \<Rightarrow> string \<Rightarrow> jsval \<Rightarrow> failure" where
  "formatError c m d = Failure (Some c) m d"

text \<open>The state of a promise. Its \<^verbatim>\<open>resolve\<close> and \<^verbatim>\<open>reject\<close> functions act only
  while it is pending.\<close>

datatype promise = Pending | Fulfilled jsval | Rejected failure

datatype cmdKind = KMessage | KImage | KVideo | KDocument

text \<open>An entry of a session's \<^verbatim>\<open>pendingRequests\<close> map. The source stores the
  \<^verbatim>\<open>resolve\<close> and \<^verbatim>\<open>reject\<close> closures of one promise; the entry names that promise.\<close>

record pendingRequest =
  promiseOf :: nat
  timeoutId :: nat
  createdAt :: int
  ptype :: cmdKind

record session =
  sessionId :: string
  apiKey :: string
  ws :: nat
  ip :: string
  deviceActive :: bool
  connectedAt :: int
  lastHeartbeat :: int
  extensionVersion :: jsval
  browser :: jsval
  pendingRequests :: "(string \<times> pendingRequest) list"

text \<open>What a request timer does when it fires: the closure of \<^verbatim>\<open>setTimeout\<close> in the
  send operations, with the session id, request id and promise it captured.\<close>

datatype timerCb = RequestTimeout string string nat

text \<open>Frames the gateway sends to an extension.\<close>

datatype emsg = Msg string | UnknownMessageType jsval

datatype frame =
    AuthSuccess string
  | ErrorFrame string emsg
  | SendMessageCmd string jsval jsval
  | SendImageCmd string jsval jsval jsval
  | SendVideoCmd string jsval jsval jsval
  | SendDocumentCmd string jsval jsval jsval jsval
  | Ping

text \<open>A WebSocket with the \<^verbatim>\<open>_tempData\<close> the gateway attaches to it. \<open>readyState\<close> 1 is
  OPEN, 2 is CLOSING.\<close>

record conn =
  readyState :: nat
  tempIp :: string
  authenticated :: bool
  tempSessionId :: "string option"
  sent :: "frame list"
  closeCalls :: "(nat \<times> string) list"

datatype logLine =
    LogStale string
  | LogAuthenticated string string
  | LogStatus string bool
  | LogDisconnected string

record messageLogEntry =
  logApiKey :: string
  logSessionId :: string
  logPhoneNumber :: string
  logType :: string
  logStatus :: string
  logTimestamp :: jsval
  logRequestId :: string
  logError :: jsval

section \<open>Session manager\<close>

record smConfig =
  heartbeatInterval :: int
  maxSessionsPerKey :: nat
  heartbeatTimeout :: int
  deviceSelectionStrategy :: string

text \<open>
  The constructor's configuration. An argument is \<open>None\<close> when the caller's object does
  not have the property. The object literal first fills in \<^verbatim>\<open>config.x || default\<close> and
  then spreads the caller's object over it, so a property the caller gave wins whatever
  its value, and the default is used exactly for a property that is absent.
\<close>

definition SessionManager_config ::
  "int option \<Rightarrow> nat option \<Rightarrow> int option \<Rightarrow> string option \<Rightarrow> smConfig" where
  "SessionManager_config hi mx ht strat =
     \<lparr> heartbeatInterval = (case hi of Some v \<Rightarrow> v | None \<Rightarrow> 30000),
       maxSessionsPerKey = (case mx of Some v \<Rightarrow> v | None \<Rightarrow> 10),
       heartbeatTimeout = (case ht of Some v \<Rightarrow> v | None \<Rightarrow> 60000),
       deviceSelectionStrategy = (case strat of Some v \<Rightarrow> v | None \<Rightarrow> ''round-robin'') \<rparr>"

definition defaultConfig :: smConfig where
  "defaultConfig = SessionManager_config None None None None"

text \<open>
  The state of one gateway: the two maps of its session manager (JavaScript maps keep
  insertion order, so they are association lists with one entry per key), and the part of
  the runtime its code acts on: armed timers, promises, sockets, the console and the two
  callbacks' logs.
\<close>

record state =
  config :: smConfig
  requestTimeout :: int
  sessions :: "(string \<times> session list) list"
  roundRobinCounters :: "(string \<times> nat) list"
  timers :: "(nat \<times> timerCb) list"
  promises :: "nat \<Rightarrow> promise"
  conns :: "nat \<Rightarrow> conn"
  console :: "logLine list"
  messageLog :: "messageLogEntry list"
  errorLog :: "(string \<times> string) list"

text \<open>A socket as the gateway first sees it, and a new gateway whose session manager has
  the given configuration.\<close>

definition newConn :: conn where
  "newConn = \<lparr> readyState = 1, tempIp = ''unknown'', authenticated = False,
               tempSessionId = None, sent = [], closeCalls = [] \<rparr>"

definition SessionManager_new :: "smConfig \<Rightarrow> state" where
  "SessionManager_new c =
     \<lparr> config = c, requestTimeout = 30000, sessions = [], roundRobinCounters = [],
       timers = [], promises = (\<lambda>h. Pending), conns = (\<lambda>w. newConn),
       console = [], messageLog = [], errorLog = [] \<rparr>"

subsection \<open>Runtime primitives\<close>

definition clearTimeout :: "nat \<Rightarrow> state \<Rightarrow> state" where
  "clearTimeout t st = st\<lparr> timers := AList.delete t (timers st) \<rparr>"

definition settle :: "nat \<Rightarrow> promise \<Rightarrow> state \<Rightarrow> state" where
  "settle h v st =
     st\<lparr> promises := (promises st)(h := (case promises st h of Pending \<Rightarrow> v | p \<Rightarrow> p)) \<rparr>"

definition resolvePromise :: "nat \<Rightarrow> jsval \<Rightarrow> state \<Rightarrow> state" where
  "resolvePromise h v st = settle h (Fulfilled v) st"

definition rejectPromise :: "nat \<Rightarrow> failure \<Rightarrow> state \<Rightarrow> state" where
  "rejectPromise h e st = settle h (Rejected e) st"

subsection \<open>Registry operations\<close>

text \<open>\<^verbatim>\<open>Array.prototype.findIndex\<close>; \<open>None\<close> stands for \<open>-1\<close>.\<close>

fun findIndex :: "('a \<Rightarrow> bool) \<Rightarrow> 'a list \<Rightarrow> nat option" where
  "findIndex P [] = None"
| "findIndex P (x # xs) = (if P x then Some 0 else map_option Suc (findIndex P xs))"

text \<open>Decimal rendering of a number inside a template string.\<close>

fun showNat :: "nat \<Rightarrow> string" where
  "showNat n =
     (if n < 10 then [''0123456789'' ! n]
      else showNat (n div 10) @ [''0123456789'' ! (n mod 10)])"

definition getSessions :: "state \<Rightarrow> string \<Rightarrow> session list" where
  "getSessions st k = (case map_of (sessions st) k of Some ss \<Rightarrow> ss | None \<Rightarrow> [])"

text \<open>
  \<open>addSession\<close> takes the fresh identifier (\<^verbatim>\<open>uuidv4()\<close>) and the clock
  (\<^verbatim>\<open>Date.now()\<close>) as arguments. It throws when the key is at its cap, and otherwise
  creates the bucket if the key has none and pushes the session onto it.
\<close>

definition addSession ::
  "string \<Rightarrow> nat \<Rightarrow> string \<Rightarrow> jsval \<Rightarrow> jsval \<Rightarrow> string \<Rightarrow> int \<Rightarrow> state \<Rightarrow> failure + (session \<times> state)" where
  "addSession k w mip mver mbrowser sid now st =
     (let existingSessions = getSessions st k in
      if length existingSessions \<ge> maxSessionsPerKey (config st) then
        Inl (newError (''MAX_SESSIONS_EXCEEDED: Maximum '' @ showNat (maxSessionsPerKey (config st))
                        @ '' sessions allowed per API key''))
      else
        let s = \<lparr> sessionId = sid, apiKey = k, ws = w,
                  ip = (if mip \<noteq> [] then mip else ''unknown''),
                  deviceActive = False, connectedAt = now, lastHeartbeat = now,
                  extensionVersion = mver, browser = mbrowser, pendingRequests = [] \<rparr>;
            m1 = (if map_of (sessions st) k = None then AList.update k [] (sessions st)
                  else sessions st);
            m2 = AList.update k ((case map_of m1 k of Some ss \<Rightarrow> ss | None \<Rightarrow> []) @ [s]) m1
        in Inr (s, st\<lparr> sessions := m2 \<rparr>))"

text \<open>Rejecting every entry of a session's pending map, in the map's order: the timer is
  cleared, then the promise is rejected.\<close>

fun rejectAll :: "failure \<Rightarrow> (string \<times> pendingRequest) list \<Rightarrow> state \<Rightarrow> state" where
  "rejectAll e [] st = st"
| "rejectAll e ((rid, pr) # rest) st =
     rejectAll e rest (rejectPromise (promiseOf pr) e (clearTimeout (timeoutId pr) st))"

definition connectionLost :: failure where
  "connectionLost = newError ''CONNECTION_LOST: WebSocket connection lost''"

text \<open>The scan of \<open>removeSession\<close> over the entries of the session map: the first bucket
  that holds a session with the given id, with the index of that session.\<close>

fun locate :: "string \<Rightarrow> (string \<times> session list) list \<Rightarrow> (string \<times> session list \<times> nat) option" where
  "locate sid [] = None"
| "locate sid ((k, ss) # rest) =
     (case findIndex (\<lambda>s. sessionId s = sid) ss of
        Some i \<Rightarrow> Some (k, ss, i)
      | None \<Rightarrow> locate sid rest)"

definition removeSession :: "string \<Rightarrow> state \<Rightarrow> bool \<times> state" where
  "removeSession sid st =
     (case locate sid (sessions st) of
        None \<Rightarrow> (False, st)
      | Some (k, ss, i) \<Rightarrow>
          let sess = ss ! i;
              st1 = rejectAll connectionLost (pendingRequests sess) st;
              ss' = take i ss @ drop (Suc i) ss;
              st2 = st1\<lparr> sessions := AList.update k ss' (sessions st1) \<rparr>;
              st3 = (if length ss' = 0
                     then st2\<lparr> sessions := AList.delete k (sessions st2),
                              roundRobinCounters := AList.delete k (roundRobinCounters st2) \<rparr>
                     else st2)
          in (True, st3))"

text \<open>\<open>getSession\<close>: the first session with the id, over the buckets in order.\<close>

fun getSession_scan :: "string \<Rightarrow> session list list \<Rightarrow> session option" where
  "getSession_scan sid [] = None"
| "getSession_scan sid (ss # rest) =
     (case find (\<lambda>s. sessionId s = sid) ss of
        Some s \<Rightarrow> Some s
      | None \<Rightarrow> getSession_scan sid rest)"

definition getSession :: "string \<Rightarrow> state \<Rightarrow> session option" where
  "getSession sid st = getSession_scan sid (map snd (sessions st))"

text \<open>A write to a field of the session object that \<open>getSession\<close> returns: the object is
  shared with its bucket, so the write shows in the map.\<close>

fun modifySession ::
  "string \<Rightarrow> (session \<Rightarrow> session) \<Rightarrow> (string \<times> session list) list \<Rightarrow> (string \<times> session list) list" where
  "modifySession sid f [] = []"
| "modifySession sid f ((k, ss) # rest) =
     (case findIndex (\<lambda>s. sessionId s = sid) ss of
        Some i \<Rightarrow> (k, ss[i := f (ss ! i)]) # rest
      | None \<Rightarrow> (k, ss) # modifySession sid f rest)"

definition getActiveSessions :: "state \<Rightarrow> string \<Rightarrow> session list" where
  "getActiveSessions st k = filter deviceActive (getSessions st k)"

text \<open>
  The round-robin counter is a JavaScript number, a double that holds a non-negative
  integer. \<^verbatim>\<open>counter + 1\<close> is exact below \<open>2 ^ 53\<close>. From there on the doubles are
  further apart than 1: up to \<open>2 ^ 54\<close> they are the even numbers and the sum lies
  halfway between two of them, so it is rounded to the one whose significand is even;
  beyond, the sum is rounded back to the counter. A counter that started at 0 therefore
  stops at \<open>2 ^ 53\<close>.
\<close>

definition counterPlusOne :: "nat \<Rightarrow> nat" where
  "counterPlusOne c =
     (if c < 2 ^ 53 then c + 1
      else if c < 2 ^ 54 \<and> odd (c div 2) then c + 2
      else c)"

text \<open>
  \<open>getSessionForSending\<close>. The argument \<open>rnd\<close> stands for the draw
  \<^verbatim>\<open>Math.floor(Math.random() * n)\<close>, which lies below \<open>n\<close>; it is only read under the
  random strategy.
\<close>

definition getSessionForSending :: "string \<Rightarrow> nat \<Rightarrow> state \<Rightarrow> session option \<times> state" where
  "getSessionForSending k rnd st =
     (let activeSessions = getActiveSessions st k in
      if length activeSessions = 0 then (None, st)
      else if length activeSessions = 1 then (Some (activeSessions ! 0), st)
      else if deviceSelectionStrategy (config st) = ''random'' then
        (Some (activeSessions ! (rnd mod length activeSessions)), st)
      else
        let counter = (case map_of (roundRobinCounters st) k of Some c \<Rightarrow> c | None \<Rightarrow> 0);
            session = activeSessions ! (counter mod length activeSessions)
        in (Some session,
            st\<lparr> roundRobinCounters :=
                  AList.update k (counterPlusOne counter) (roundRobinCounters st) \<rparr>))"

definition updateSessionStatus :: "string \<Rightarrow> bool \<Rightarrow> bool \<Rightarrow> state \<Rightarrow> state" where
  "updateSessionStatus sid whatsappLoggedIn ready st =
     (case getSession sid st of
        Some s \<Rightarrow>
          st\<lparr> sessions :=
                modifySession sid (\<lambda>s. s\<lparr> deviceActive := whatsappLoggedIn \<and> ready \<rparr>) (sessions st) \<rparr>
      | None \<Rightarrow> st)"

definition updateHeartbeat :: "string \<Rightarrow> int \<Rightarrow> state \<Rightarrow> state" where
  "updateHeartbeat sid now st =
     (case getSession sid st of
        Some s \<Rightarrow> st\<lparr> sessions := modifySession sid (\<lambda>s. s\<lparr> lastHeartbeat := now \<rparr>) (sessions st) \<rparr>
      | None \<Rightarrow> st)"

subsection \<open>Pending requests\<close>

definition addPendingRequest :: "string \<Rightarrow> string \<Rightarrow> pendingRequest \<Rightarrow> state \<Rightarrow> state" where
  "addPendingRequest sid rid pr st =
     (case getSession sid st of
        Some s \<Rightarrow>
          st\<lparr> sessions :=
                modifySession sid
                  (\<lambda>s. s\<lparr> pendingRequests := AList.update rid pr (pendingRequests s) \<rparr>)
                  (sessions st) \<rparr>
      | None \<Rightarrow> st)"

definition resolvePendingRequest :: "string \<Rightarrow> string \<Rightarrow> jsval \<Rightarrow> state \<Rightarrow> bool \<times> state" where
  "resolvePendingRequest sid rid result st =
     (case getSession sid st of
        None \<Rightarrow> (False, st)
      | Some s \<Rightarrow>
          (case map_of (pendingRequests s) rid of
             None \<Rightarrow> (False, st)
           | Some pendingRequest \<Rightarrow>
               let st1 = clearTimeout (timeoutId pendingRequest) st;
                   st2 = resolvePromise (promiseOf pendingRequest) result st1;
                   st3 = st2\<lparr> sessions :=
                               modifySession sid
                                 (\<lambda>s. s\<lparr> pendingRequests := AList.delete rid (pendingRequests s) \<rparr>)
                                 (sessions st2) \<rparr>
               in (True, st3)))"

subsection \<open>Queries\<close>

record sessionInfo =
  infoSessionId :: string
  infoDeviceActive :: bool
  infoConnectedAt :: int
  infoLastHeartbeat :: int
  infoExtensionVersion :: jsval
  infoBrowser :: jsval

definition toInfo :: "session \<Rightarrow> sessionInfo" where
  "toInfo s = \<lparr> infoSessionId = sessionId s, infoDeviceActive = deviceActive s,
               infoConnectedAt = connectedAt s, infoLastHeartbeat = lastHeartbeat s,
               infoExtensionVersion = extensionVersion s, infoBrowser = browser s \<rparr>"

definition getSessionInfo :: "state \<Rightarrow> string \<Rightarrow> sessionInfo list" where
  "getSessionInfo st k = map toInfo (getSessions st k)"

definition getTotalSessionCount :: "state \<Rightarrow> nat" where
  "getTotalSessionCount st = sum_list (map (\<lambda>(k, ss). length ss) (sessions st))"

subsection \<open>Heartbeat monitor\<close>

text \<open>
  The body of the interval callback of \<open>startHeartbeatMonitor\<close>. First the ids of all
  stale sessions are collected, bucket by bucket; then, for each collected id, the
  caller's callback (when one was given) runs on the session if it is still there, and
  the session is removed.
\<close>

definition staleSessionIds :: "int \<Rightarrow> state \<Rightarrow> string list" where
  "staleSessionIds now st =
     concat (map (\<lambda>(k, ss).
                    map sessionId
                      (filter (\<lambda>s. now - lastHeartbeat s > heartbeatTimeout (config st)) ss))
                 (sessions st))"

fun removeStale :: "(session \<Rightarrow> state \<Rightarrow> state) option \<Rightarrow> string list \<Rightarrow> state \<Rightarrow> state" where
  "removeStale onStaleSession [] st = st"
| "removeStale onStaleSession (sid # rest) st =
     (let st1 = (case getSession sid st of
                   Some s \<Rightarrow> (case onStaleSession of Some hook \<Rightarrow> hook s st | None \<Rightarrow> st)
                 | None \<Rightarrow> st)
      in removeStale onStaleSession rest (snd (removeSession sid st1)))"

definition heartbeatTick :: "(session \<Rightarrow> state \<Rightarrow> state) option \<Rightarrow> int \<Rightarrow> state \<Rightarrow> state" where
  "heartbeatTick onStaleSession now st = removeStale onStaleSession (staleSessionIds now st) st"

section \<open>Inbound envelopes: \<^verbatim>\<open>protocol.js\<close>\<close>

text \<open>The \<^verbatim>\<open>data\<close> object of a validated envelope, one shape per envelope type.\<close>

datatype extData =
    AuthData string jsval jsval
  | StatusData bool bool
  | ResultData string bool jsval jsval
  | HeartbeatData jsval

text \<open>\<open>parseMessage\<close> takes the value \<^verbatim>\<open>JSON.parse\<close> returned, or \<open>None\<close> when it
  threw.\<close>

definition parseMessage :: "jsval option \<Rightarrow> jsval option" where
  "parseMessage json =
     (case json of
        None \<Rightarrow> None
      | Some message \<Rightarrow>
          if \<not> truthy message \<or> \<not> isObjectType message \<or> \<not> truthy (getField message ''type'')
          then None else Some message)"

definition validateAuthMessage :: "jsval \<Rightarrow> emsg + extData" where
  "validateAuthMessage message =
     (if getField message ''type'' \<noteq> JStr ''auth'' then Inl (Msg ''Invalid message type'')
      else if \<not> truthy (getField message ''apiKey'') \<or> \<not> isStringType (getField message ''apiKey'')
           then Inl (Msg ''Missing or invalid apiKey'')
      else if \<not> truthy (getField message ''data'') \<or> \<not> isObjectType (getField message ''data'')
           then Inl (Msg ''Missing or invalid data object'')
      else Inr (AuthData (case getField message ''apiKey'' of JStr k \<Rightarrow> k | _ \<Rightarrow> [])
                         (orElse (getField (getField message ''data'') ''extensionVersion'')
                                 (JStr ''unknown''))
                         (orElse (getField (getField message ''data'') ''browser'')
                                 (JStr ''unknown''))))"

definition validateStatusMessage :: "jsval \<Rightarrow> emsg + extData" where
  "validateStatusMessage message =
     (if getField message ''type'' \<noteq> JStr ''status'' then Inl (Msg ''Invalid message type'')
      else if \<not> truthy (getField message ''data'') \<or> \<not> isObjectType (getField message ''data'')
           then Inl (Msg ''Missing or invalid data object'')
      else Inr (StatusData (getField (getField message ''data'') ''whatsappLoggedIn'' = JBool True)
                           (getField (getField message ''data'') ''ready'' = JBool True)))"

definition validateMessageResult :: "jsval \<Rightarrow> int \<Rightarrow> emsg + extData" where
  "validateMessageResult message now =
     (if getField message ''type'' \<noteq> JStr ''message-result'' then Inl (Msg ''Invalid message type'')
      else if \<not> truthy (getField message ''requestId'')
              \<or> \<not> isStringType (getField message ''requestId'')
           then Inl (Msg ''Missing or invalid requestId'')
      else if \<not> isBooleanType (getField message ''success'')
           then Inl (Msg ''Missing or invalid success field'')
      else Inr (ResultData (case getField message ''requestId'' of JStr r \<Rightarrow> r | _ \<Rightarrow> [])
                           (getField message ''success'' = JBool True)
                           (orElse (getField message ''error'') JNull)
                           (orElse (getField message ''timestamp'') (JNum now))))"

definition validateHeartbeatMessage :: "jsval \<Rightarrow> int \<Rightarrow> emsg + extData" where
  "validateHeartbeatMessage message now =
     (if getField message ''type'' \<noteq> JStr ''heartbeat'' then Inl (Msg ''Invalid message type'')
      else Inr (HeartbeatData (orElse (getField message ''timestamp'') (JNum now))))"

text \<open>\<open>handleExtensionMessage\<close> returns the \<^verbatim>\<open>type\<close> of its result and, for
  \<^verbatim>\<open>valid: false\<close>, the error, otherwise the data.\<close>

definition handleExtensionMessage :: "jsval \<Rightarrow> int \<Rightarrow> string \<times> (emsg + extData)" where
  "handleExtensionMessage message now =
     (let type = getField message ''type'' in
      if type = JStr ''auth'' then (''auth'', validateAuthMessage message)
      else if type = JStr ''status'' then (''status'', validateStatusMessage message)
      else if type = JStr ''message-result'' then (''message-result'', validateMessageResult message now)
      else if type = JStr ''heartbeat'' then (''heartbeat'', validateHeartbeatMessage message now)
      else (''unknown'', Inl (UnknownMessageType type)))"

section \<open>Gateway: \<^verbatim>\<open>gateway.js\<close>\<close>

subsection \<open>Sockets\<close>

text \<open>\<^verbatim>\<open>ws.send\<close> delivers a frame on an open socket; on a socket that is not open the
  frame is not delivered. \<^verbatim>\<open>ws.close\<close> starts the closing handshake of a socket that
  is not yet closing; the socket's close event is a later event of its own.\<close>

definition wsSend :: "nat \<Rightarrow> frame \<Rightarrow> state \<Rightarrow> state" where
  "wsSend w f st =
     (if readyState (conns st w) = 1
      then st\<lparr> conns := (conns st)(w := (conns st w)\<lparr> sent := sent (conns st w) @ [f] \<rparr>) \<rparr>
      else st)"

definition wsClose :: "nat \<Rightarrow> nat \<Rightarrow> string \<Rightarrow> state \<Rightarrow> state" where
  "wsClose w code reason st =
     st\<lparr> conns := (conns st)(w := (conns st w)
            \<lparr> readyState := (if readyState (conns st w) < 2 then 2 else readyState (conns st w)),
              closeCalls := closeCalls (conns st w) @ [(code, reason)] \<rparr>) \<rparr>"

definition sendError :: "nat \<Rightarrow> string \<Rightarrow> emsg \<Rightarrow> state \<Rightarrow> state" where
  "sendError w code message st =
     (if readyState (conns st w) = 1 then wsSend w (ErrorFrame code message) st else st)"

definition onError :: "string \<Rightarrow> string \<Rightarrow> state \<Rightarrow> state" where
  "onError code message st = st\<lparr> errorLog := errorLog st @ [(code, message)] \<rparr>"

definition consoleLog :: "logLine \<Rightarrow> state \<Rightarrow> state" where
  "consoleLog l st = st\<lparr> console := console st @ [l] \<rparr>"

text \<open>The callback \<open>start\<close> hands to the heartbeat monitor.\<close>

definition gatewayOnStale :: "session \<Rightarrow> state \<Rightarrow> state" where
  "gatewayOnStale staleSession st =
     (let st1 = consoleLog (LogStale (sessionId staleSession)) st in
      if readyState (conns st1 (ws staleSession)) = 1
      then wsClose (ws staleSession) 1000 ''Heartbeat timeout'' st1
      else st1)"

subsection \<open>Inbound handlers\<close>

text \<open>The outcome of the caller's \<open>validateApiKey\<close> callback: it throws, or returns a
  value.\<close>

datatype keyCheck = KeyThrows string | KeyResult jsval

definition handleAuthMessage ::
  "nat \<Rightarrow> string \<Rightarrow> jsval \<Rightarrow> jsval \<Rightarrow> keyCheck \<Rightarrow> string \<Rightarrow> int \<Rightarrow> state \<Rightarrow> state" where
  "handleAuthMessage w key ver br kc sid now st =
     (case kc of
        KeyThrows m \<Rightarrow>
          wsClose w 1011 ''Authentication error'' (onError ''AUTH_ERROR'' ''Error during authentication'' st)
      | KeyResult validationResult \<Rightarrow>
          if \<not> truthy validationResult \<or> \<not> truthy (getField validationResult ''valid'') then
            wsClose w 1008 ''Authentication failed''
              (sendError w ''AUTHENTICATION_FAILED'' (Msg ''Invalid API key'') st)
          else
            (case addSession key w (tempIp (conns st w)) ver br sid now st of
               Inl e \<Rightarrow>
                 wsClose w 1008 ''Max sessions exceeded''
                   (sendError w ''MAX_SESSIONS_EXCEEDED'' (Msg (fmessage e)) st)
             | Inr (s, st1) \<Rightarrow>
                 let st2 = st1\<lparr> conns := (conns st1)(w := (conns st1 w)
                                  \<lparr> authenticated := True, tempSessionId := Some (sessionId s) \<rparr>) \<rparr>;
                     st3 = consoleLog (LogAuthenticated (sessionId s) key) st2
                 in wsSend w (AuthSuccess (sessionId s)) st3))"

definition handleStatusMessage :: "nat \<Rightarrow> bool \<Rightarrow> bool \<Rightarrow> state \<Rightarrow> state" where
  "handleStatusMessage w whatsappLoggedIn ready st =
     (if \<not> authenticated (conns st w) then
        sendError w ''NOT_AUTHENTICATED'' (Msg ''Not authenticated'') st
      else
        (case tempSessionId (conns st w) of
           None \<Rightarrow> st
         | Some sid \<Rightarrow>
             consoleLog (LogStatus sid whatsappLoggedIn)
               (updateSessionStatus sid whatsappLoggedIn ready st)))"

definition resultObject :: "string \<Rightarrow> bool \<Rightarrow> jsval \<Rightarrow> jsval \<Rightarrow> jsval" where
  "resultObject rid success err ts =
     JObj [(''requestId'', JStr rid), (''success'', JBool success), (''error'', err),
           (''timestamp'', ts)]"

definition handleMessageResult :: "nat \<Rightarrow> string \<Rightarrow> bool \<Rightarrow> jsval \<Rightarrow> jsval \<Rightarrow> state \<Rightarrow> state" where
  "handleMessageResult w rid success err ts st =
     (if \<not> authenticated (conns st w) then st
      else
        (case tempSessionId (conns st w) of
           None \<Rightarrow> st
         | Some sid \<Rightarrow>
             (case resolvePendingRequest sid rid (resultObject rid success err ts) st of
                (resolved, st1) \<Rightarrow>
                  if resolved then
                    (case getSession sid st1 of
                       None \<Rightarrow> st1
                     | Some session \<Rightarrow>
                         st1\<lparr> messageLog := messageLog st1 @
                                [\<lparr> logApiKey = apiKey session, logSessionId = sessionId session,
                                   logPhoneNumber = ''unknown'', logType = ''unknown'',
                                   logStatus = (if success then ''success'' else ''failure''),
                                   logTimestamp = ts, logRequestId = rid, logError = err \<rparr>] \<rparr>)
                  else st1)))"

definition handleHeartbeat :: "nat \<Rightarrow> int \<Rightarrow> state \<Rightarrow> state" where
  "handleHeartbeat w now st =
     (if \<not> authenticated (conns st w) then st
      else
        (case tempSessionId (conns st w) of
           None \<Rightarrow> st
         | Some sid \<Rightarrow> updateHeartbeat sid now st))"

text \<open>
  \<open>handleMessage\<close>: the socket, the parsed text, and what the environment supplies to the
  handlers (the outcome of the key check, a fresh session id, the clock). The envelope's
  data determines its type, so the dispatch is on the data.
\<close>

definition handleMessage ::
  "nat \<Rightarrow> jsval option \<Rightarrow> keyCheck \<Rightarrow> string \<Rightarrow> int \<Rightarrow> state \<Rightarrow> state" where
  "handleMessage w json kc sid now st =
     (case parseMessage json of
        None \<Rightarrow> sendError w ''INVALID_MESSAGE'' (Msg ''Invalid message format'') st
      | Some message \<Rightarrow>
          (case handleExtensionMessage message now of
             (type, Inl err) \<Rightarrow> sendError w ''VALIDATION_ERROR'' err st
           | (type, Inr (AuthData key ver br)) \<Rightarrow> handleAuthMessage w key ver br kc sid now st
           | (type, Inr (StatusData li rd)) \<Rightarrow> handleStatusMessage w li rd st
           | (type, Inr (ResultData rid success err ts)) \<Rightarrow>
               handleMessageResult w rid success err ts st
           | (type, Inr (HeartbeatData ts)) \<Rightarrow> handleHeartbeat w now st))"

definition handleClose :: "nat \<Rightarrow> state \<Rightarrow> state" where
  "handleClose w st =
     (if authenticated (conns st w) then
        (case tempSessionId (conns st w) of
           None \<Rightarrow> st
         | Some sid \<Rightarrow> snd (removeSession sid (consoleLog (LogDisconnected sid) st)))
      else st)"

subsection \<open>Send operations\<close>

definition sanitizeApiKey :: "string \<Rightarrow> string" where
  "sanitizeApiKey k = (if k = [] \<or> length k < 8 then ''***'' else take 8 k @ ''***'')"

definition noActiveDevice :: "string \<Rightarrow> failure" where
  "noActiveDevice k =
     formatError ''NO_ACTIVE_DEVICE'' ''No active WhatsApp device connected for this API key''
       (JObj [(''apiKey'', JStr (sanitizeApiKey k))])"

definition requestTimeoutError :: failure where
  "requestTimeoutError = formatError ''REQUEST_TIMEOUT'' ''Request timed out after 30 seconds'' JNull"

definition notOpenError :: failure where
  "notOpenError = formatError ''CONNECTION_LOST'' ''WebSocket connection is not open'' JNull"

definition typeErrorFailure :: failure where
  "typeErrorFailure = newError ''TypeError''"

text \<open>
  The promise block that ends each of the four send operations, the same in all of them:
  a new promise \<open>h\<close> is created, the timer \<open>tid\<close> is armed with the timeout closure, the
  pending entry is stored, and the command is sent if the socket is open; otherwise the
  timer is cleared, the entry is resolved with \<^verbatim>\<open>null\<close> through the session manager,
  and \<^verbatim>\<open>reject\<close> is called.
\<close>

definition awaitResult ::
  "session \<Rightarrow> string \<Rightarrow> frame \<Rightarrow> cmdKind \<Rightarrow> nat \<Rightarrow> nat \<Rightarrow> int \<Rightarrow> state \<Rightarrow> state" where
  "awaitResult session rid command kind h tid now st =
     (let st0 = st\<lparr> promises := (promises st)(h := Pending) \<rparr>;
          st1 = st0\<lparr> timers := AList.update tid (RequestTimeout (sessionId session) rid h) (timers st0) \<rparr>;
          st2 = addPendingRequest (sessionId session) rid
                  \<lparr> promiseOf = h, timeoutId = tid, createdAt = now, ptype = kind \<rparr> st1
      in if readyState (conns st2 (ws session)) = 1 then wsSend (ws session) command st2
         else
           let st3 = clearTimeout tid st2;
               st4 = snd (resolvePendingRequest (sessionId session) rid JNull st3)
           in rejectPromise h notOpenError st4)"

text \<open>The timeout closure, run when timer \<open>tid\<close> fires: a timer that was cleared does
  nothing.\<close>

definition fireTimer :: "nat \<Rightarrow> state \<Rightarrow> state" where
  "fireTimer tid st =
     (case map_of (timers st) tid of
        None \<Rightarrow> st
      | Some (RequestTimeout sid rid h) \<Rightarrow>
          let st0 = st\<lparr> timers := AList.delete tid (timers st) \<rparr>;
              st1 = snd (resolvePendingRequest sid rid JNull st0)
          in rejectPromise h requestTimeoutError st1)"

text \<open>
  A send operation returns \<open>Inl f\<close> when the call fails at once with \<open>f\<close>, and \<open>Inr h\<close> when
  its result is that of the promise \<open>h\<close>. The environment supplies the request id, the
  promise, the timer, the clock, the random draw and, for media, the outcome of fetching
  the URL.
\<close>

definition sendMessage ::
  "string \<Rightarrow> jsval \<Rightarrow> string \<Rightarrow> nat \<Rightarrow> nat \<Rightarrow> int \<Rightarrow> nat \<Rightarrow> state \<Rightarrow> (failure + nat) \<times> state" where
  "sendMessage k data rid h tid now rnd st =
     (case validateSendMessageData data of
        Inl e \<Rightarrow> (Inl typeErrorFailure, st)
      | Inr (Invalid err) \<Rightarrow> (Inl (formatError ''VALIDATION_ERROR'' err JNull), st)
      | Inr Valid \<Rightarrow>
          (case getSessionForSending k rnd st of
             (None, st1) \<Rightarrow> (Inl (noActiveDevice k), st1)
           | (Some session, st1) \<Rightarrow>
               (Inr h,
                awaitResult session rid
                  (SendMessageCmd rid (getField data ''phoneNumber'') (getField data ''message''))
                  KMessage h tid now st1)))"

definition sendImage ::
  "string \<Rightarrow> jsval \<Rightarrow> (failure + string) \<Rightarrow> string \<Rightarrow> nat \<Rightarrow> nat \<Rightarrow> int \<Rightarrow> nat \<Rightarrow> state
     \<Rightarrow> (failure + nat) \<times> state" where
  "sendImage k data fetched rid h tid now rnd st =
     (case validateSendImageData data of
        Inl e \<Rightarrow> (Inl typeErrorFailure, st)
      | Inr (Invalid err) \<Rightarrow> (Inl (formatError ''VALIDATION_ERROR'' err JNull), st)
      | Inr Valid \<Rightarrow>
          (case (if \<not> truthy (getField data ''imageDataUrl'') \<and> truthy (getField data ''imageUrl'')
                 then map_sum id JStr fetched else Inr (getField data ''imageDataUrl'')) of
             Inl f \<Rightarrow> (Inl f, st)
           | Inr imageDataUrl \<Rightarrow>
               (case getSessionForSending k rnd st of
                  (None, st1) \<Rightarrow> (Inl (noActiveDevice k), st1)
                | (Some session, st1) \<Rightarrow>
                    (Inr h,
                     awaitResult session rid
                       (SendImageCmd rid (getField data ''phoneNumber'') imageDataUrl
                          (orElse (getField data ''caption'') (JStr [])))
                       KImage h tid now st1))))"

definition sendVideo ::
  "string \<Rightarrow> jsval \<Rightarrow> (failure + string) \<Rightarrow> string \<Rightarrow> nat \<Rightarrow> nat \<Rightarrow> int \<Rightarrow> nat \<Rightarrow> state
     \<Rightarrow> (failure + nat) \<times> state" where
  "sendVideo k data fetched rid h tid now rnd st =
     (case validateSendVideoData data of
        Inl e \<Rightarrow> (Inl typeErrorFailure, st)
      | Inr (Invalid err) \<Rightarrow> (Inl (formatError ''VALIDATION_ERROR'' err JNull), st)
      | Inr Valid \<Rightarrow>
          (case (if \<not> truthy (getField data ''videoDataUrl'') \<and> truthy (getField data ''videoUrl'')
                 then map_sum id JStr fetched else Inr (getField data ''videoDataUrl'')) of
             Inl f \<Rightarrow> (Inl f, st)
           | Inr videoDataUrl \<Rightarrow>
               (case getSessionForSending k rnd st of
                  (None, st1) \<Rightarrow> (Inl (noActiveDevice k), st1)
                | (Some session, st1) \<Rightarrow>
                    (Inr h,
                     awaitResult session rid
                       (SendVideoCmd rid (getField data ''phoneNumber'') videoDataUrl
                          (orElse (getField data ''caption'') (JStr [])))
                       KVideo h tid now st1))))"

text \<open>\<open>sendDocument\<close> builds its command from the phone number, the payload and the name
  only, so the command's caption is always the empty string.\<close>

definition sendDocument ::
  "string \<Rightarrow> jsval \<Rightarrow> (failure + string) \<Rightarrow> string \<Rightarrow> nat \<Rightarrow> nat \<Rightarrow> int \<Rightarrow> nat \<Rightarrow> state
     \<Rightarrow> (failure + nat) \<times> state" where
  "sendDocument k data fetched rid h tid now rnd st =
     (case validateSendDocumentData data of
        Inl e \<Rightarrow> (Inl typeErrorFailure, st)
      | Inr (Invalid err) \<Rightarrow> (Inl (formatError ''VALIDATION_ERROR'' err JNull), st)
      | Inr Valid \<Rightarrow>
          (case (if \<not> truthy (getField data ''documentDataUrl'') \<and> truthy (getField data ''documentUrl'')
                 then map_sum id JStr fetched else Inr (getField data ''documentDataUrl'')) of
             Inl f \<Rightarrow> (Inl f, st)
           | Inr documentDataUrl \<Rightarrow>
               (case getSessionForSending k rnd st of
                  (None, st1) \<Rightarrow> (Inl (noActiveDevice k), st1)
                | (Some session, st1) \<Rightarrow>
                    (Inr h,
                     awaitResult session rid
                       (SendDocumentCmd rid (getField data ''phoneNumber'') documentDataUrl
                          (getField data ''documentName'') (JStr []))
                       KDocument h tid now st1))))"

text \<open>What the caller of a send operation observes.\<close>

definition callOutcome :: "failure + nat \<Rightarrow> state \<Rightarrow> promise" where
  "callOutcome r st = (case r of Inl f \<Rightarrow> Rejected f | Inr h \<Rightarrow> promises st h)"

text \<open>The gateway's \<open>getActiveSessions\<close>.\<close>

definition gateway_getActiveSessions :: "string \<Rightarrow> state \<Rightarrow> sessionInfo list \<times> state" where
  "gateway_getActiveSessions k st = (getSessionInfo st k, st)"

section \<open>Runs of operations\<close>

text \<open>The registry operations a client can cause, and a run of them. A registration
  that throws leaves the state as it was.\<close>

datatype regOp =
    Register string nat string jsval jsval string int
  | Unregister string
  | SetStatus string bool bool

fun applyOp :: "regOp \<Rightarrow> state \<Rightarrow> state" where
  "applyOp (Register k w mip mver mbrowser sid now) st =
     (case addSession k w mip mver mbrowser sid now st of
        Inl e \<Rightarrow> st
      | Inr (s, st') \<Rightarrow> st')"
| "applyOp (Unregister sid) st = snd (removeSession sid st)"
| "applyOp (SetStatus sid li rd) st = updateSessionStatus sid li rd st"

definition runOps :: "regOp list \<Rightarrow> state \<Rightarrow> state" where
  "runOps ops st = fold applyOp ops st"

text \<open>\<open>n\<close> consecutive calls of \<open>getSessionForSending\<close> for one key, with nothing in
  between: the sessions returned, in order, and the final state.\<close>

fun selectN :: "nat \<Rightarrow> string \<Rightarrow> nat \<Rightarrow> state \<Rightarrow> session option list \<times> state" where
  "selectN 0 k rnd st = ([], st)"
| "selectN (Suc n) k rnd st =
     (case getSessionForSending k rnd st of
        (r, st1) \<Rightarrow> (case selectN n k rnd st1 of (rs, st2) \<Rightarrow> (r # rs, st2)))"

text \<open>The round-robin cursor of a key, as \<open>getSessionForSending\<close> reads it.\<close>

definition cursor :: "state \<Rightarrow> string \<Rightarrow> nat" where
  "cursor st k = (case map_of (roundRobinCounters st) k of Some c \<Rightarrow> c | None \<Rightarrow> 0)"

text \<open>Well-formedness of the session map: one entry per key, as in any JavaScript map,
  and no session id occurring twice, as the ids are fresh UUIDs.\<close>

definition distinctKeys :: "state \<Rightarrow> bool" where
  "distinctKeys st = distinct (map fst (sessions st))"

definition allSessions :: "state \<Rightarrow> session list" where
  "allSessions st = concat (map snd (sessions st))"

definition distinctIds :: "state \<Rightarrow> bool" where
  "distinctIds st = distinct (map sessionId (allSessions st))"

definition isStale :: "int \<Rightarrow> state \<Rightarrow> session \<Rightarrow> bool" where
  "isStale now st s = (now - lastHeartbeat s > heartbeatTimeout (config st))"

section \<open>A concrete run\<close>

text \<open>One extension registers under the key \<open>K\<close> and reports that it is logged in and
  ready; then a text message is sent through it. The environment hands out request id
  \<open>R1\<close>, promise 7 and timer 3.\<close>

definition demoData :: jsval where
  "demoData = JObj [(''phoneNumber'', JStr ''+1234567890''), (''message'', JStr ''Hello'')]"

definition demoReady :: state where
  "demoReady =
     runOps [Register ''K'' 1 ''10.0.0.1'' (JStr ''1.0.0'') (JStr ''Chrome'') ''S1'' 100,
             SetStatus ''S1'' True True]
       (SessionManager_new defaultConfig)"

definition demoSent :: state where
  "demoSent = snd (sendMessage ''K'' demoData ''R1'' 7 3 150 0 demoReady)"

definition demoSession :: session where
  "demoSession =
     \<lparr> sessionId = ''S1'', apiKey = ''K'', ws = 1, ip = ''10.0.0.1'',
       deviceActive = True, connectedAt = 100, lastHeartbeat = 100,
       extensionVersion = JStr ''1.0.0'', browser = JStr ''Chrome'',
       pendingRequests = [] \<rparr>"

definition demoPending :: pendingRequest where
  "demoPending = \<lparr> promiseOf = 7, timeoutId = 3, createdAt = 150, ptype = KMessage \<rparr>"

text \<open>The state before the send, with the extension's socket closed in the meantime.\<close>

definition demoClosed :: state where
  "demoClosed = demoReady\<lparr> conns := (conns demoReady)(1 := (conns demoReady 1)\<lparr> readyState := 3 \<rparr>) \<rparr>"

text \<open>Further runs: a single registration; two registrations of which one is activated;
  three registrations, all activated.\<close>

definition demoOne :: state where
  "demoOne =
     runOps [Register ''K'' 1 ''10.0.0.1'' (JStr ''1.0.0'') (JStr ''Chrome'') ''S1'' 100]
       (SessionManager_new defaultConfig)"

definition demoTwo :: state where
  "demoTwo =
     runOps [Register ''K'' 1 ''10.0.0.1'' (JStr ''1.0.0'') (JStr ''Chrome'') ''S1'' 100,
             Register ''K'' 2 ''10.0.0.2'' (JStr ''1.0.0'') (JStr ''Chrome'') ''S2'' 110,
             SetStatus ''S1'' True True]
       (SessionManager_new defaultConfig)"

definition demoThree :: state where
  "demoThree =
     runOps [Register ''K'' 1 ''10.0.0.1'' (JStr ''1.0.0'') (JStr ''Chrome'') ''S1'' 100,
             Register ''K'' 2 ''10.0.0.2'' (JStr ''1.0.0'') (JStr ''Chrome'') ''S2'' 110,
             Register ''K'' 3 ''10.0.0.3'' (JStr ''1.0.0'') (JStr ''Chrome'') ''S3'' 120,
             SetStatus ''S1'' True True, SetStatus ''S2'' True True, SetStatus ''S3'' True True]
       (SessionManager_new defaultConfig)"

text \<open>Four registrations, of which all but the second are activated.\<close>

definition demoMixed :: state where
  "demoMixed =
     runOps [Register ''K'' 1 ''10.0.0.1'' (JStr ''1.0.0'') (JStr ''Chrome'') ''S1'' 100,
             Register ''K'' 2 ''10.0.0.2'' (JStr ''1.0.0'') (JStr ''Chrome'') ''S2'' 110,
             Register ''K'' 3 ''10.0.0.3'' (JStr ''1.0.0'') (JStr ''Chrome'') ''S3'' 120,
             Register ''K'' 4 ''10.0.0.4'' (JStr ''1.0.0'') (JStr ''Chrome'') ''S4'' 130,
             SetStatus ''S1'' True True, SetStatus ''S3'' True True, SetStatus ''S4'' True True]
       (SessionManager_new defaultConfig)"

text \<open>Every bucket of the session map holds at least one session.\<close>

definition noEmptyBucket :: "state \<Rightarrow> bool" where
  "noEmptyBucket st = list_all (\<lambda>(k, ss). ss \<noteq> []) (sessions st)"

text \<open>An image payload that carries both a URL and a data URL; a new gateway, whose
  connections are open and not authenticated; and four inbound envelopes.\<close>

definition bothImage :: jsval where
  "bothImage = JObj [(''phoneNumber'', JStr ''+1234567890''),
                     (''imageUrl'', JStr ''https://example.com/a.png''),
                     (''imageDataUrl'', JStr ''data:image/png;base64,AAAA'')]"

definition heartbeatEnvelope :: jsval where
  "heartbeatEnvelope = JObj [(''type'', JStr ''heartbeat'')]"

definition resultEnvelope :: jsval where
  "resultEnvelope = JObj [(''type'', JStr ''message-result''), (''requestId'', JStr ''R1''),
                          (''success'', JBool True)]"

definition statusEnvelope :: jsval where
  "statusEnvelope = JObj [(''type'', JStr ''status''),
                          (''data'', JObj [(''whatsappLoggedIn'', JBool True), (''ready'', JBool True)])]"

definition bogusEnvelope :: jsval where
  "bogusEnvelope = JObj [(''type'', JStr ''bogus'')]"

definition freshGateway :: state where
  "freshGateway = SessionManager_new defaultConfig"

section \<open>Notions used in the statements about the heartbeat monitor\<close>

text \<open>One round of the removal loop under the gateway's callback.\<close>

definition evictOne :: "string \<Rightarrow> state \<Rightarrow> state" where
  "evictOne sid st =
     snd (removeSession sid
            (case getSession sid st of Some s \<Rightarrow> gatewayOnStale s st | None \<Rightarrow> st))"

text \<open>From \<open>st\<close> to \<open>st'\<close> the configuration is kept, no socket that was not open has
  become open, every promise is as it was or has gone from pending to rejected with the
  \<^verbatim>\<open>CONNECTION_LOST\<close> error, and no timer has been armed.\<close>

definition advances :: "state \<Rightarrow> state \<Rightarrow> bool" where
  "advances st st' =
     (config st' = config st
      \<and> (\<forall>w. readyState (conns st w) \<noteq> 1 \<longrightarrow> readyState (conns st' w) \<noteq> 1)
      \<and> (\<forall>h. promises st' h = promises st h
               \<or> (promises st h = Pending \<and> promises st' h = Rejected connectionLost))
      \<and> (\<forall>t. map_of (timers st) t = None \<longrightarrow> map_of (timers st') t = None))"

text \<open>In \<open>st'\<close> the socket of session \<open>s\<close> is not open, and no request of \<open>s\<close> has a
  pending promise or an armed timer.\<close>

definition evicted :: "state \<Rightarrow> session \<Rightarrow> bool" where
  "evicted st' s =
     (readyState (conns st' (ws s)) \<noteq> 1
      \<and> list_all (\<lambda>(rid, pr). promises st' (promiseOf pr) \<noteq> Pending
                             \<and> map_of (timers st') (timeoutId pr) = None)
                  (pendingRequests s))"

section \<open>Properties of the codec\<close>

lemma phoneRegex_test_iff: "phoneRegex_test s = e164_format s"
proof (cases s)
  case Nil
  then show ?thesis by (simp add: phoneRegex_test_def e164_format_def)
next
  case (Cons c r)
  note s = Cons
  show ?thesis
  proof (cases r)
    case Nil
    with s show ?thesis by (simp add: phoneRegex_test_def e164_format_def)
  next
    case (Cons d r')
    have run: "(1 \<le> min 14 (length (takeWhile isDigit r')) \<and>
                drop (min 14 (length (takeWhile isDigit r'))) r' = []) =
               (1 \<le> length r' \<and> length r' \<le> 14 \<and> list_all isDigit r')"
    proof
      assume a: "1 \<le> min 14 (length (takeWhile isDigit r')) \<and>
                 drop (min 14 (length (takeWhile isDigit r'))) r' = []"
      then have len: "length r' \<le> min 14 (length (takeWhile isDigit r'))" by simp
      have "length (takeWhile isDigit r') \<le> length r'" by (rule length_takeWhile_le)
      with len have eq: "length (takeWhile isDigit r') = length r'" and "length r' \<le> 14"
        by simp_all
      from eq have "takeWhile isDigit r' = r'"
        by (metis takeWhile_eq_take take_all order_refl)
      then have "list_all isDigit r'"
        by (metis list_all_iff set_takeWhileD)
      with a eq \<open>length r' \<le> 14\<close> show "1 \<le> length r' \<and> length r' \<le> 14 \<and> list_all isDigit r'"
        by simp
    next
      assume a: "1 \<le> length r' \<and> length r' \<le> 14 \<and> list_all isDigit r'"
      then have tw: "takeWhile isDigit r' = r'" by (simp add: list_all_iff)
      from a show "1 \<le> min 14 (length (takeWhile isDigit r')) \<and>
                   drop (min 14 (length (takeWhile isDigit r'))) r' = []"
        by (simp add: tw)
    qed
    have d19: "isDigit19 d \<Longrightarrow> isDigit d" by (auto simp: isDigit19_def isDigit_def)
    from s Cons run d19 show ?thesis
      by (auto simp: phoneRegex_test_def e164_format_def Let_def)
  qed
qed

lemma isValidPhoneNumber_JStr: "isValidPhoneNumber (JStr s) = e164_format s"
  by (cases s) (simp_all add: isValidPhoneNumber_def phoneRegex_test_iff e164_format_def)

lemma isValidPhoneNumber_nonstring: "\<not> isStringType v \<Longrightarrow> \<not> isValidPhoneNumber v"
  by (simp add: isValidPhoneNumber_def)

subsection \<open>Phone numbers\<close>

text \<open>
  Claim C3, as stated, fails at \<^verbatim>\<open>"+1"\<close>: the string has the format the
  specification describes (a plus sign and one digit from 1 to 9), and
  \<open>isValidPhoneNumber\<close> returns false for it.
\<close>

theorem C3_counterexample:
  "spec_phone_format ''+1'' \<and> isValidPhoneNumber (JStr ''+1'') = False"
  by (simp add: spec_phone_format_def isValidPhoneNumber_def phoneRegex_test_def
      isDigit_def isDigit19_def)

text \<open>
  Claim C3, amended: \<open>isValidPhoneNumber\<close> returns true exactly for the strings made of a
  plus sign followed by two to fifteen digits the first of which is 1 to 9. It returns
  true for \<^verbatim>\<open>"+1234567890"\<close> and \<^verbatim>\<open>"+12"\<close>, and false for \<^verbatim>\<open>"+0123456789"\<close>,
  \<^verbatim>\<open>"1234567890"\<close> and \<^verbatim>\<open>"+1"\<close>.
\<close>

theorem C3_isValidPhoneNumber:
  "isValidPhoneNumber v = (\<exists>s. v = JStr s \<and> e164_format s)
   \<and> isValidPhoneNumber (JStr ''+1234567890'') = True
   \<and> isValidPhoneNumber (JStr ''+12'') = True
   \<and> isValidPhoneNumber (JStr ''+0123456789'') = False
   \<and> isValidPhoneNumber (JStr ''1234567890'') = False
   \<and> isValidPhoneNumber (JStr ''+1'') = False"
proof -
  have "isValidPhoneNumber v = (\<exists>s. v = JStr s \<and> e164_format s)"
  proof (cases v)
    case (JStr s)
    then show ?thesis by (simp add: isValidPhoneNumber_JStr)
  qed (simp_all add: isValidPhoneNumber_def)
  then show ?thesis
    by (simp add: isValidPhoneNumber_JStr e164_format_def isDigit_def isDigit19_def)
qed

theorem C3_witness:
  "isValidPhoneNumber (JStr ''+12345'') \<and> \<not> isValidPhoneNumber (JStr ''+12a45'')
   \<and> \<not> isValidPhoneNumber (JNum 12345)"
  using C3_isValidPhoneNumber [of "JStr ''+12345''"]
        C3_isValidPhoneNumber [of "JStr ''+12a45''"]
        C3_isValidPhoneNumber [of "JNum 12345"]
  by (simp add: e164_format_def isDigit_def isDigit19_def)

subsection \<open>Media validators\<close>

lemma truthy_string_cases:
  "truthy v \<Longrightarrow> (\<exists>s. v = JStr s \<and> s \<noteq> []) \<or> \<not> isStringType v"
  by (cases v) simp_all

lemma embeddedOk_callStartsWith:
  "truthy v \<Longrightarrow> embeddedOk p v = (callStartsWith v p = Inr True)"
  by (cases v) (simp_all add: embeddedOk_def)

lemma callStartsWith_Inl: "(callStartsWith v p = Inl e) = (\<not> isStringType v)"
  by (cases v; cases e) simp_all

lemma isObject_iff: "isObject v = (truthy v \<and> isObjectType v)"
  by (cases v) (simp_all add: isObject_def)

lemma nonEmptyString_iff: "nonEmptyString v = (truthy v \<and> isStringType v)"
  by (cases v) (simp_all add: nonEmptyString_def)

lemma validateSendImageData_Valid:
  "(validateSendImageData d = Inr Valid) =
     (isObject d \<and> isValidPhoneNumber (getField d ''phoneNumber'')
      \<and> (truthy (getField d ''imageUrl'') \<or> truthy (getField d ''imageDataUrl''))
      \<and> embeddedOk ''data:image/'' (getField d ''imageDataUrl''))"
proof (cases "truthy (getField d ''imageDataUrl'')")
  case True
  then show ?thesis
    by (auto simp: validateSendImageData_def isObject_iff embeddedOk_callStartsWith
        split: sum.splits)
next
  case False
  then show ?thesis
    by (auto simp: validateSendImageData_def isObject_iff embeddedOk_def)
qed

lemma validateSendVideoData_Valid:
  "(validateSendVideoData d = Inr Valid) =
     (isObject d \<and> isValidPhoneNumber (getField d ''phoneNumber'')
      \<and> (truthy (getField d ''videoUrl'') \<or> truthy (getField d ''videoDataUrl''))
      \<and> embeddedOk ''data:video/'' (getField d ''videoDataUrl''))"
proof (cases "truthy (getField d ''videoDataUrl'')")
  case True
  then show ?thesis
    by (auto simp: validateSendVideoData_def isObject_iff embeddedOk_callStartsWith
        split: sum.splits)
next
  case False
  then show ?thesis
    by (auto simp: validateSendVideoData_def isObject_iff embeddedOk_def)
qed

lemma validateSendDocumentData_Valid:
  "(validateSendDocumentData d = Inr Valid) =
     (isObject d \<and> isValidPhoneNumber (getField d ''phoneNumber'')
      \<and> (truthy (getField d ''documentUrl'') \<or> truthy (getField d ''documentDataUrl''))
      \<and> nonEmptyString (getField d ''documentName''))"
  by (auto simp: validateSendDocumentData_def isObject_iff nonEmptyString_iff)

lemma validateSendImageData_rejects:
  "validateSendImageData d \<noteq> Inr Valid \<Longrightarrow>
     (\<exists>err. validateSendImageData d = Inr (Invalid err))
     \<or> (validateSendImageData d = Inl TypeError \<and> truthy (getField d ''imageDataUrl'')
        \<and> \<not> isStringType (getField d ''imageDataUrl''))"
  by (cases "getField d ''imageDataUrl''")
     (auto simp: validateSendImageData_def split: if_splits)

lemma validateSendVideoData_rejects:
  "validateSendVideoData d \<noteq> Inr Valid \<Longrightarrow>
     (\<exists>err. validateSendVideoData d = Inr (Invalid err))
     \<or> (validateSendVideoData d = Inl TypeError \<and> truthy (getField d ''videoDataUrl'')
        \<and> \<not> isStringType (getField d ''videoDataUrl''))"
  by (cases "getField d ''videoDataUrl''")
     (auto simp: validateSendVideoData_def split: if_splits)

lemma validateSendDocumentData_rejects:
  "validateSendDocumentData d \<noteq> Inr Valid \<Longrightarrow>
     (\<exists>err. validateSendDocumentData d = Inr (Invalid err))"
  by (auto simp: validateSendDocumentData_def split: if_splits)

text \<open>
  Claim C9, as stated, fails on an image input that carries both a URL and an embedded
  payload: not exactly one of the two is present, and the validator accepts it.
\<close>

theorem C9_counterexample:
  "\<not> spec_exactly_one (getField bothImage ''imageUrl'') (getField bothImage ''imageDataUrl'')
   \<and> validateSendImageData bothImage = Inr Valid"
  by (simp add: bothImage_def spec_exactly_one_def validateSendImageData_def
      isValidPhoneNumber_JStr e164_format_def isDigit_def isDigit19_def startsWith_def)

text \<open>
  Claim C9, amended. A media input is accepted exactly when it is an object with a valid
  phone number in which at least one of the URL and the embedded payload is present (both
  may be), and, for image and video, the embedded payload, when present, is a string that
  starts with \<^verbatim>\<open>data:image/\<close>, respectively \<^verbatim>\<open>data:video/\<close>; a document's payload is
  arbitrary, and a document needs a non-empty string as its name. An input that violates
  this, and whose embedded image or video payload, if present, is a string, is rejected
  with a validation failure.
\<close>

theorem C9_media_validators:
  "((validateSendImageData d = Inr Valid) =
      (isObject d \<and> isValidPhoneNumber (getField d ''phoneNumber'')
       \<and> (truthy (getField d ''imageUrl'') \<or> truthy (getField d ''imageDataUrl''))
       \<and> embeddedOk ''data:image/'' (getField d ''imageDataUrl'')))
   \<and> ((validateSendVideoData d = Inr Valid) =
      (isObject d \<and> isValidPhoneNumber (getField d ''phoneNumber'')
       \<and> (truthy (getField d ''videoUrl'') \<or> truthy (getField d ''videoDataUrl''))
       \<and> embeddedOk ''data:video/'' (getField d ''videoDataUrl'')))
   \<and> ((validateSendDocumentData d = Inr Valid) =
      (isObject d \<and> isValidPhoneNumber (getField d ''phoneNumber'')
       \<and> (truthy (getField d ''documentUrl'') \<or> truthy (getField d ''documentDataUrl''))
       \<and> nonEmptyString (getField d ''documentName'')))
   \<and> (\<not> truthy (getField d ''imageDataUrl'') \<or> isStringType (getField d ''imageDataUrl'')
        \<longrightarrow> validateSendImageData d = Inr Valid
            \<or> (\<exists>err. validateSendImageData d = Inr (Invalid err)))
   \<and> (\<not> truthy (getField d ''videoDataUrl'') \<or> isStringType (getField d ''videoDataUrl'')
        \<longrightarrow> validateSendVideoData d = Inr Valid
            \<or> (\<exists>err. validateSendVideoData d = Inr (Invalid err)))
   \<and> (validateSendDocumentData d = Inr Valid
        \<or> (\<exists>err. validateSendDocumentData d = Inr (Invalid err)))"
  using validateSendImageData_Valid [of d] validateSendVideoData_Valid [of d]
    validateSendDocumentData_Valid [of d]
    validateSendImageData_rejects [of d] validateSendVideoData_rejects [of d]
    validateSendDocumentData_rejects [of d]
  by blast

theorem C9_witness:
  "validateSendImageData bothImage = Inr Valid
   \<and> validateSendImageData
       (JObj [(''phoneNumber'', JStr ''+1234567890''),
              (''imageDataUrl'', JStr ''data:video/mp4;base64,AAAA'')])
       = Inr (Invalid ''Invalid imageDataUrl format. Must start with data:image/'')
   \<and> validateSendVideoData
       (JObj [(''phoneNumber'', JStr ''+1234567890'')])
       = Inr (Invalid ''Either videoUrl or videoDataUrl is required'')
   \<and> validateSendDocumentData
       (JObj [(''phoneNumber'', JStr ''+1234567890''),
              (''documentUrl'', JStr ''https://example.com/a.pdf''),
              (''documentName'', JStr [])])
       = Inr (Invalid ''documentName is required'')"
  using C9_media_validators [of bothImage]
    C9_media_validators [of "JObj [(''phoneNumber'', JStr ''+1234567890''),
              (''imageDataUrl'', JStr ''data:video/mp4;base64,AAAA'')]"]
    C9_media_validators [of "JObj [(''phoneNumber'', JStr ''+1234567890'')]"]
    C9_media_validators [of "JObj [(''phoneNumber'', JStr ''+1234567890''),
              (''documentUrl'', JStr ''https://example.com/a.pdf''),
              (''documentName'', JStr [])]"]
  by (simp add: bothImage_def validateSendImageData_def validateSendVideoData_def
      validateSendDocumentData_def startsWith_def
      isValidPhoneNumber_JStr e164_format_def isDigit_def isDigit19_def)

section \<open>Properties of the session manager\<close>

subsection \<open>Finding and updating sessions\<close>

lemma findIndex_None: "(findIndex P xs = None) = (\<forall>x\<in>set xs. \<not> P x)"
  by (induction xs) auto

lemma findIndex_Some: "findIndex P xs = Some i \<Longrightarrow> i < length xs \<and> P (xs ! i) \<and> (\<forall>j<i. \<not> P (xs ! j))"
proof (induction xs arbitrary: i)
  case Nil then show ?case by simp
next
  case (Cons x xs)
  then show ?case by (auto split: if_splits simp: nth_Cons split: nat.splits)
qed

lemma find_findIndex: "find P xs = map_option (\<lambda>i. xs ! i) (findIndex P xs)"
  by (induction xs) (auto simp: option.map_comp comp_def)

lemma findIndex_update:
  "findIndex P xs = Some i \<Longrightarrow> P y \<Longrightarrow> findIndex P (xs[i := y]) = Some i"
proof (induction xs arbitrary: i)
  case Nil then show ?case by simp
next
  case (Cons x xs)
  then show ?case by (auto split: if_splits)
qed

lemma getSession_scan_modify:
  assumes "\<And>s. sessionId (f s) = sessionId s"
  shows "getSession_scan sid (map snd (modifySession sid f bs))
         = map_option f (getSession_scan sid (map snd bs))"
proof (induction bs)
  case Nil then show ?case by simp
next
  case (Cons b bs)
  obtain k ss where b: "b = (k, ss)" by (cases b)
  show ?case
  proof (cases "findIndex (\<lambda>s. sessionId s = sid) ss")
    case None
    with b Cons show ?thesis by (simp add: find_findIndex)
  next
    case (Some i)
    from findIndex_Some[OF Some] have "sessionId (ss ! i) = sid" "i < length ss" by auto
    with assms have "sessionId (f (ss ! i)) = sid" by simp
    from findIndex_update[OF Some, of "f (ss ! i)"] this
    have "findIndex (\<lambda>s. sessionId s = sid) (ss[i := f (ss ! i)]) = Some i" by simp
    with b Some \<open>i < length ss\<close> show ?thesis by (simp add: find_findIndex)
  qed
qed


lemma sessions_prims [simp]:
  "sessions (clearTimeout t st) = sessions st"
  "sessions (settle h v st) = sessions st"
  "sessions (resolvePromise h x st) = sessions st"
  "sessions (rejectPromise h e st) = sessions st"
  "sessions (consoleLog l st) = sessions st"
  "sessions (onError c m st) = sessions st"
  "sessions (wsSend w f st) = sessions st"
  "sessions (wsClose w cc r st) = sessions st"
  "sessions (sendError w c em st) = sessions st"
  by (simp_all add: clearTimeout_def settle_def resolvePromise_def rejectPromise_def
      consoleLog_def onError_def wsSend_def wsClose_def sendError_def)

lemma getSession_prims [simp]:
  "getSession sid (clearTimeout t st) = getSession sid st"
  "getSession sid (settle h v st) = getSession sid st"
  "getSession sid (resolvePromise h x st) = getSession sid st"
  "getSession sid (rejectPromise h e st) = getSession sid st"
  "getSession sid (consoleLog l st) = getSession sid st"
  "getSession sid (wsClose w cc r st) = getSession sid st"
  by (simp_all add: getSession_def)

lemma getSession_modify:
  assumes "\<And>s. sessionId (f s) = sessionId s"
  shows "getSession sid (st\<lparr> sessions := modifySession sid f (sessions st) \<rparr>)
         = map_option f (getSession sid st)"
  using getSession_scan_modify [OF assms] by (simp add: getSession_def)

subsection \<open>Resolving a pending request\<close>

lemma resolvePendingRequest_found:
  assumes "getSession sid st = Some s" and "map_of (pendingRequests s) rid = Some pr"
  shows "resolvePendingRequest sid rid res st =
           (True, (resolvePromise (promiseOf pr) res (clearTimeout (timeoutId pr) st))
                    \<lparr> sessions := modifySession sid
                        (\<lambda>s. s\<lparr> pendingRequests := AList.delete rid (pendingRequests s) \<rparr>)
                        (sessions st) \<rparr>)"
  using assms by (simp add: resolvePendingRequest_def Let_def)

lemma resolvePendingRequest_missing:
  assumes "getSession sid st = None \<or> (\<exists>s. getSession sid st = Some s \<and> map_of (pendingRequests s) rid = None)"
  shows "resolvePendingRequest sid rid res st = (False, st)"
  using assms by (auto simp: resolvePendingRequest_def)

lemma getSession_after_resolve:
  assumes "getSession sid st = Some s" and "map_of (pendingRequests s) rid = Some pr"
  shows "getSession sid (snd (resolvePendingRequest sid rid res st))
         = Some (s\<lparr> pendingRequests := AList.delete rid (pendingRequests s) \<rparr>)"
proof -
  let ?f = "\<lambda>s. s\<lparr> pendingRequests := AList.delete rid (pendingRequests s) \<rparr>"
  let ?st2 = "resolvePromise (promiseOf pr) res (clearTimeout (timeoutId pr) st)"
  have "getSession sid (?st2\<lparr> sessions := modifySession sid ?f (sessions ?st2) \<rparr>)
        = map_option ?f (getSession sid ?st2)"
    by (rule getSession_modify) simp
  with assms show ?thesis
    by (simp add: resolvePendingRequest_found)
qed

lemma timers_after_resolve:
  assumes "getSession sid st = Some s" and "map_of (pendingRequests s) rid = Some pr"
  shows "timers (snd (resolvePendingRequest sid rid res st)) = AList.delete (timeoutId pr) (timers st)"
  using assms
  by (simp add: resolvePendingRequest_found resolvePromise_def settle_def clearTimeout_def)

lemma promises_after_resolve:
  assumes "getSession sid st = Some s" and "map_of (pendingRequests s) rid = Some pr"
  shows "promises (snd (resolvePendingRequest sid rid res st)) =
           (promises st)(promiseOf pr :=
              (case promises st (promiseOf pr) of Pending \<Rightarrow> Fulfilled res | p \<Rightarrow> p))"
  using assms
  by (simp add: resolvePendingRequest_found resolvePromise_def settle_def clearTimeout_def)

text \<open>Two calls in a row: what the first does, and that the second finds nothing.\<close>

lemma resolve_twice:
  "(case resolvePendingRequest sid rid res st of
      (r1, st1) \<Rightarrow>
        resolvePendingRequest sid rid res2 st1 = (False, st1)
        \<and> r1 = (\<exists>s pr. getSession sid st = Some s \<and> map_of (pendingRequests s) rid = Some pr)
        \<and> (r1 \<longrightarrow>
             (\<exists>s pr. getSession sid st = Some s \<and> map_of (pendingRequests s) rid = Some pr
                \<and> map_of (timers st1) (timeoutId pr) = None
                \<and> getSession sid st1 =
                    Some (s\<lparr> pendingRequests := AList.delete rid (pendingRequests s) \<rparr>)
                \<and> promises st1 =
                    (promises st)(promiseOf pr :=
                       (case promises st (promiseOf pr) of Pending \<Rightarrow> Fulfilled res | p \<Rightarrow> p))))
        \<and> (\<not> r1 \<longrightarrow> st1 = st))"
proof (cases "\<exists>s pr. getSession sid st = Some s \<and> map_of (pendingRequests s) rid = Some pr")
  case True
  then obtain s pr where s: "getSession sid st = Some s"
    and pr: "map_of (pendingRequests s) rid = Some pr" by blast
  obtain st1 where r: "resolvePendingRequest sid rid res st = (True, st1)"
    using resolvePendingRequest_found [OF s pr] by simp
  then have st1: "st1 = snd (resolvePendingRequest sid rid res st)" by simp
  have g: "getSession sid st1 = Some (s\<lparr> pendingRequests := AList.delete rid (pendingRequests s) \<rparr>)"
    unfolding st1 by (rule getSession_after_resolve [OF s pr])
  have "map_of (pendingRequests (s\<lparr> pendingRequests := AList.delete rid (pendingRequests s) \<rparr>)) rid = None"
    by (simp add: delete_conv')
  with g have second: "resolvePendingRequest sid rid res2 st1 = (False, st1)"
    by (intro resolvePendingRequest_missing) simp
  have t: "map_of (timers st1) (timeoutId pr) = None"
    unfolding st1 by (simp add: timers_after_resolve [OF s pr] delete_conv')
  have p: "promises st1 = (promises st)(promiseOf pr :=
              (case promises st (promiseOf pr) of Pending \<Rightarrow> Fulfilled res | p \<Rightarrow> p))"
    unfolding st1 by (rule promises_after_resolve [OF s pr])
  from r second s pr g t p True show ?thesis by auto
next
  case False
  then have m: "getSession sid st = None \<or>
      (\<exists>s. getSession sid st = Some s \<and> map_of (pendingRequests s) rid = None)"
    by (cases "getSession sid st") auto
  from resolvePendingRequest_missing [OF m] False show ?thesis by simp
qed


subsection \<open>The concrete run\<close>

lemmas eval_defs = demoData_def demoReady_def demoSent_def runOps_def SessionManager_new_def
  defaultConfig_def SessionManager_config_def addSession_def getSessions_def
  updateSessionStatus_def getSession_def sendMessage_def validateSendMessageData_def
  isValidPhoneNumber_JStr e164_format_def isDigit_def isDigit19_def trim_def isSpace_def
  getSessionForSending_def getActiveSessions_def awaitResult_def addPendingRequest_def
  wsSend_def newConn_def Let_def demoSession_def demoPending_def

lemma demoReady_sessions: "sessions demoReady = [(''K'', [demoSession])]"
  by (simp add: eval_defs)

lemma demoSent_eval:
  "sendMessage ''K'' demoData ''R1'' 7 3 150 0 demoReady = (Inr 7, demoSent)"
  "sessions demoSent = [(''K'', [demoSession\<lparr> pendingRequests := [(''R1'', demoPending)] \<rparr>])]"
  "timers demoSent = [(3, RequestTimeout ''S1'' ''R1'' 7)]"
  "promises demoSent 7 = Pending"
  "sent (conns demoSent 1) = [SendMessageCmd ''R1'' (JStr ''+1234567890'') (JStr ''Hello'')]"
  by (simp_all add: eval_defs)

lemma demoSent_getSession:
  "getSession ''S1'' demoSent = Some (demoSession\<lparr> pendingRequests := [(''R1'', demoPending)] \<rparr>)"
  by (simp add: getSession_def demoSent_eval demoSession_def)

text \<open>
  Claim C1 fails on the code. After the message of the concrete run has been sent, the
  caller's promise is pending. When the request's timer fires, the timeout closure first
  resolves the pending entry with \<^verbatim>\<open>null\<close> through the session manager, which fulfils
  the caller's promise, and the \<^verbatim>\<open>reject\<close> with the \<^verbatim>\<open>REQUEST_TIMEOUT\<close> error
  that follows acts on a settled promise. The caller's call completes successfully with
  \<^verbatim>\<open>null\<close>.
\<close>

theorem C1_timeout_fulfils_with_null:
  "sendMessage ''K'' demoData ''R1'' 7 3 150 0 demoReady = (Inr 7, demoSent)
   \<and> callOutcome (Inr 7) demoSent = Pending
   \<and> callOutcome (Inr 7) (fireTimer 3 demoSent) = Fulfilled JNull
   \<and> callOutcome (Inr 7) (fireTimer 3 demoSent) \<noteq> Rejected requestTimeoutError"
proof -
  have "promises (fireTimer 3 demoSent) 7 = Fulfilled JNull"
    by (simp add: fireTimer_def demoSent_eval resolvePendingRequest_def getSession_def
        demoSession_def demoPending_def clearTimeout_def resolvePromise_def rejectPromise_def
        settle_def Let_def)
  then show ?thesis
    by (simp add: callOutcome_def demoSent_eval)
qed


subsection \<open>Listing the sessions of a key\<close>

text \<open>
  Claim C10. The gateway's \<open>getActiveSessions\<close> returns one entry for every session in the
  key's bucket, in the bucket's order, each with the session's id and its
  \<open>deviceActive\<close> flag whatever that flag is; the state it returns is the state it was
  given.
\<close>

theorem C10_getActiveSessions_lists_all:
  "fst (gateway_getActiveSessions k st) = map toInfo (getSessions st k)
   \<and> length (fst (gateway_getActiveSessions k st)) = length (getSessions st k)
   \<and> map infoSessionId (fst (gateway_getActiveSessions k st)) = map sessionId (getSessions st k)
   \<and> map infoDeviceActive (fst (gateway_getActiveSessions k st))
       = map deviceActive (getSessions st k)
   \<and> snd (gateway_getActiveSessions k st) = st"
  by (simp add: gateway_getActiveSessions_def getSessionInfo_def toInfo_def comp_def)

theorem C10_witness:
  "map infoSessionId (fst (gateway_getActiveSessions ''K'' demoTwo)) = [''S1'', ''S2'']
   \<and> map infoDeviceActive (fst (gateway_getActiveSessions ''K'' demoTwo)) = [True, False]
   \<and> map sessionId (getActiveSessions demoTwo ''K'') = [''S1'']"
  using C10_getActiveSessions_lists_all [of "''K''" demoTwo]
  by (simp add: demoTwo_def runOps_def SessionManager_new_def defaultConfig_def
      SessionManager_config_def addSession_def getSessions_def updateSessionStatus_def
      getSession_def getActiveSessions_def Let_def gateway_getActiveSessions_def
      getSessionInfo_def toInfo_def)

subsection \<open>Buckets are never empty\<close>

lemma set_update_cases:
  "(k', v') \<in> set (AList.update k v m) \<Longrightarrow> (k', v') \<in> set m \<or> (k' = k \<and> v' = v)"
  by (induction m) (auto split: if_splits)

lemma set_delete_subset: "set (AList.delete k m) \<subseteq> set m"
  by (auto simp: AList.delete_eq)

lemma sessions_rejectAll [simp]: "sessions (rejectAll e ps st) = sessions st"
  by (induction e ps st rule: rejectAll.induct) simp_all

lemma addSession_sessions:
  "addSession k w mip mver mbrowser sid now st = Inr (s, st') \<Longrightarrow>
     sessions st' = AList.update k (getSessions st k @ [s]) (sessions st)"
  by (auto simp: addSession_def Let_def getSessions_def update_conv' split: if_splits)

lemma removeSession_sessions:
  "locate sid (sessions st) = Some (k, ss, i) \<Longrightarrow>
     sessions (snd (removeSession sid st)) =
       (if take i ss @ drop (Suc i) ss = [] then AList.delete k (sessions st)
        else AList.update k (take i ss @ drop (Suc i) ss) (sessions st))"
  by (simp add: removeSession_def Let_def delete_update_same)

lemma removeSession_absent:
  "locate sid (sessions st) = None \<Longrightarrow> removeSession sid st = (False, st)"
  by (simp add: removeSession_def)

lemma modifySession_nonempty:
  "list_all (\<lambda>(k, ss). ss \<noteq> []) (modifySession sid f m) = list_all (\<lambda>(k, ss). ss \<noteq> []) m"
  by (induction m) (auto split: option.splits)

lemma noEmptyBucket_new: "noEmptyBucket (SessionManager_new c)"
  by (simp add: noEmptyBucket_def SessionManager_new_def)

lemma noEmptyBucket_applyOp: "noEmptyBucket st \<Longrightarrow> noEmptyBucket (applyOp x st)"
proof (cases x)
  case (Register k w mip mver mbrowser sid now)
  assume inv: "noEmptyBucket st"
  show ?thesis
  proof (cases "addSession k w mip mver mbrowser sid now st")
    case (Inl e)
    with Register inv show ?thesis by simp
  next
    case (Inr p)
    obtain s st' where p: "p = (s, st')" by (cases p)
    from addSession_sessions [OF Inr [unfolded p]] inv
    have "noEmptyBucket st'"
      by (auto simp: noEmptyBucket_def list_all_iff dest!: set_update_cases)
    with Register Inr p show ?thesis by simp
  qed
next
  case (Unregister sid)
  assume inv: "noEmptyBucket st"
  show ?thesis
  proof (cases "locate sid (sessions st)")
    case None
    with Unregister inv show ?thesis by (simp add: removeSession_absent)
  next
    case (Some t)
    obtain k ss i where t: "t = (k, ss, i)" by (cases t)
    from removeSession_sessions [OF Some [unfolded t]] inv set_delete_subset [of k "sessions st"]
    have "noEmptyBucket (snd (removeSession sid st))"
      by (auto simp: noEmptyBucket_def list_all_iff dest!: set_update_cases split: if_splits)
    with Unregister show ?thesis by simp
  qed
next
  case (SetStatus sid li rd)
  assume inv: "noEmptyBucket st"
  then show ?thesis
    unfolding SetStatus
    by (auto simp: updateSessionStatus_def noEmptyBucket_def modifySession_nonempty
        split: option.splits)
qed

lemma noEmptyBucket_fold: "noEmptyBucket st \<Longrightarrow> noEmptyBucket (fold applyOp ops st)"
  by (induction ops arbitrary: st) (simp_all add: noEmptyBucket_applyOp)

lemma noEmptyBucket_runOps: "noEmptyBucket (runOps ops (SessionManager_new c))"
  unfolding runOps_def by (rule noEmptyBucket_fold [OF noEmptyBucket_new])

lemma bucket_absent_iff:
  assumes "noEmptyBucket st"
  shows "(map_of (sessions st) k = None) = (length (getSessions st k) = 0)"
proof (cases "map_of (sessions st) k")
  case None
  then show ?thesis by (simp add: getSessions_def)
next
  case (Some ss)
  then have "(k, ss) \<in> set (sessions st)" by (rule map_of_SomeD)
  with assms have "ss \<noteq> []" by (auto simp: noEmptyBucket_def list_all_iff)
  with Some show ?thesis by (simp add: getSessions_def)
qed

text \<open>
  Claim C4, as stated, fails after a single registration: a new session is not active
  (its \<open>deviceActive\<close> flag is false until a status message arrives), so the key has a
  bucket while the number of its active sessions is zero.
\<close>

theorem C4_counterexample:
  "map_of (sessions demoOne) ''K'' \<noteq> None \<and> length (getActiveSessions demoOne ''K'') = 0"
  by (simp add: demoOne_def runOps_def SessionManager_new_def defaultConfig_def
      SessionManager_config_def addSession_def getSessions_def getActiveSessions_def Let_def)

text \<open>
  Claim C4, amended. After any run of registrations, removals and status updates on a new
  session manager, and for every key, the key's bucket is absent from the session map if
  and only if the number of sessions registered under the key, active or not, is zero.
  When the bucket is absent, the key has no active session either.
\<close>

theorem C4_bucket_absent_iff_no_sessions:
  "(map_of (sessions (runOps ops (SessionManager_new c))) k = None)
     = (length (getSessions (runOps ops (SessionManager_new c)) k) = 0)
   \<and> (map_of (sessions (runOps ops (SessionManager_new c))) k = None
        \<longrightarrow> length (getActiveSessions (runOps ops (SessionManager_new c)) k) = 0)"
  using bucket_absent_iff [OF noEmptyBucket_runOps, of ops c k]
  by (auto simp: getActiveSessions_def)

theorem C4_witness:
  "map_of (sessions demoOne) ''K'' \<noteq> None \<and> length (getSessions demoOne ''K'') = 1
   \<and> map_of (sessions (runOps [Unregister ''S1''] demoOne)) ''K'' = None
   \<and> length (getSessions (runOps [Unregister ''S1''] demoOne) ''K'') = 0"
proof -
  let ?reg = "Register ''K'' 1 ''10.0.0.1'' (JStr ''1.0.0'') (JStr ''Chrome'') ''S1'' 100"
  let ?new = "SessionManager_new defaultConfig"
  have d1: "demoOne = runOps [?reg] ?new"
    by (simp add: demoOne_def)
  have d2: "runOps [Unregister ''S1''] demoOne = runOps [?reg, Unregister ''S1''] ?new"
    by (simp add: demoOne_def runOps_def)
  have one: "length (getSessions (runOps [?reg] ?new) ''K'') = 1"
    by (simp add: runOps_def SessionManager_new_def defaultConfig_def
      SessionManager_config_def addSession_def getSessions_def Let_def)
  have zero: "length (getSessions (runOps [?reg, Unregister ''S1''] ?new) ''K'') = 0"
    by (simp add: runOps_def SessionManager_new_def defaultConfig_def
      SessionManager_config_def addSession_def getSessions_def removeSession_def Let_def)
  have a: "map_of (sessions (runOps [?reg] ?new)) ''K'' \<noteq> None"
    using C4_bucket_absent_iff_no_sessions [of "[?reg]" defaultConfig "''K''"] one
    by (metis zero_neq_one)
  have b: "map_of (sessions (runOps [?reg, Unregister ''S1''] ?new)) ''K'' = None"
    using C4_bucket_absent_iff_no_sessions [of "[?reg, Unregister ''S1'']" defaultConfig "''K''"]
      zero
    by blast
  from a [folded d1] b [folded d2] one [folded d1] zero [folded d2] show ?thesis by blast
qed


subsection \<open>Round-robin selection\<close>

lemma getSessionForSending_one:
  assumes "length (getActiveSessions st k) = 1"
  shows "getSessionForSending k rnd st = (Some (getActiveSessions st k ! 0), st)"
proof -
  from assms have "getActiveSessions st k \<noteq> []" by auto
  with assms show ?thesis by (simp add: getSessionForSending_def Let_def)
qed

lemma getSessionForSending_rr:
  assumes "deviceSelectionStrategy (config st) \<noteq> ''random''"
    and "2 \<le> length (getActiveSessions st k)"
  shows "getSessionForSending k rnd st =
           (Some (getActiveSessions st k ! (cursor st k mod length (getActiveSessions st k))),
            st\<lparr> roundRobinCounters :=
                  AList.update k (counterPlusOne (cursor st k)) (roundRobinCounters st) \<rparr>)"
proof -
  from assms(2) have "getActiveSessions st k \<noteq> []" "length (getActiveSessions st k) \<noteq> 1"
    by auto
  with assms(1) show ?thesis by (simp add: getSessionForSending_def Let_def cursor_def)
qed

lemma counterPlusOne_exact: "c < 2 ^ 53 \<Longrightarrow> counterPlusOne c = c + 1"
  by (simp add: counterPlusOne_def)

text \<open>At \<open>2 ^ 53\<close> the counter no longer moves.\<close>

lemma counterPlusOne_stops: "counterPlusOne (2 ^ 53) = 2 ^ 53"
  by (simp add: counterPlusOne_def)

lemma cursor_stops:
  assumes "deviceSelectionStrategy (config st) \<noteq> ''random''"
    and "2 \<le> length (getActiveSessions st k)" and "cursor st k = 2 ^ 53"
  shows "cursor (snd (getSessionForSending k rnd st)) k = 2 ^ 53"
  using assms(3)
  by (simp add: getSessionForSending_rr [OF assms(1,2)] cursor_def update_conv'
      counterPlusOne_def)

lemma step_rr:
  assumes "deviceSelectionStrategy (config st) \<noteq> ''random''"
    and "getActiveSessions st k \<noteq> []"
    and "length (getActiveSessions st k) = 1 \<or> cursor st k < 2 ^ 53"
  shows "fst (getSessionForSending k rnd st)
           = Some (getActiveSessions st k ! (cursor st k mod length (getActiveSessions st k)))
    \<and> getActiveSessions (snd (getSessionForSending k rnd st)) k = getActiveSessions st k
    \<and> config (snd (getSessionForSending k rnd st)) = config st
    \<and> sessions (snd (getSessionForSending k rnd st)) = sessions st
    \<and> (length (getActiveSessions st k) = 1
        \<or> cursor (snd (getSessionForSending k rnd st)) k = cursor st k + 1)"
proof (cases "length (getActiveSessions st k) = 1")
  case True
  then show ?thesis by (simp add: getSessionForSending_one)
next
  case False
  with assms(2) have two: "2 \<le> length (getActiveSessions st k)"
    by (cases "getActiveSessions st k") (auto simp: Suc_le_eq)
  from False assms(3) have "counterPlusOne (cursor st k) = cursor st k + 1"
    by (simp add: counterPlusOne_exact)
  then show ?thesis
    by (simp add: getSessionForSending_rr [OF assms(1) two] getActiveSessions_def
        getSessions_def cursor_def update_conv')
qed

lemma selectN_rr:
  assumes "deviceSelectionStrategy (config st) \<noteq> ''random''"
    and "getActiveSessions st k \<noteq> []"
    and "length (getActiveSessions st k) = 1 \<or> cursor st k + n \<le> 2 ^ 53"
  shows "fst (selectN n k rnd st) =
           map (\<lambda>i. Some (getActiveSessions st k
                            ! ((cursor st k + i) mod length (getActiveSessions st k)))) [0..<n]
         \<and> getActiveSessions (snd (selectN n k rnd st)) k = getActiveSessions st k
         \<and> sessions (snd (selectN n k rnd st)) = sessions st"
  using assms
proof (induction n arbitrary: st)
  case 0
  then show ?case by simp
next
  case (Suc n)
  let ?st1 = "snd (getSessionForSending k rnd st)"
  let ?A = "getActiveSessions st k"
  from Suc.prems(3) have small: "length ?A = 1 \<or> cursor st k < 2 ^ 53" by auto
  note s = step_rr [OF Suc.prems(1,2) small, of rnd]
  from s have A1: "getActiveSessions ?st1 k = ?A" by blast
  from s have nxt: "length ?A = 1 \<or> cursor ?st1 k = cursor st k + 1" by blast
  with Suc.prems(3) have bound: "length ?A = 1 \<or> cursor ?st1 k + n \<le> 2 ^ 53" by auto
  have ih: "fst (selectN n k rnd ?st1) =
           map (\<lambda>i. Some (?A ! ((cursor ?st1 k + i) mod length ?A))) [0..<n]
         \<and> getActiveSessions (snd (selectN n k rnd ?st1)) k = ?A
         \<and> sessions (snd (selectN n k rnd ?st1)) = sessions st"
    using Suc.IH [of ?st1] Suc.prems(1,2) s bound by (simp add: A1)
  have "(cursor ?st1 k + i) mod length ?A = (cursor st k + Suc i) mod length ?A" for i
    using nxt by auto
  then have shift: "map (\<lambda>i. Some (?A ! ((cursor ?st1 k + i) mod length ?A))) [0..<n]
             = map (\<lambda>i. Some (?A ! ((cursor st k + Suc i) mod length ?A))) [0..<n]"
    by simp
  have upt: "[0..<Suc n] = 0 # map Suc [0..<n]"
    by (simp add: upt_conv_Cons map_Suc_upt del: upt_Suc)
  from s have hd: "fst (getSessionForSending k rnd st) = Some (?A ! (cursor st k mod length ?A))"
    by blast
  show ?case
    using ih hd shift
    by (simp add: split_def upt comp_def del: upt_Suc)
qed

lemma addSession_appends:
  assumes "addSession k w mip mver mbrowser sid now st = Inr (s, st')"
  shows "getSessions st' k = getSessions st k @ [s]"
  using addSession_sessions [OF assms] by (simp add: getSessions_def update_conv')

lemma demoThree_eval:
  "getActiveSessions demoThree ''K'' =
     [\<lparr> sessionId = ''S1'', apiKey = ''K'', ws = 1, ip = ''10.0.0.1'',
        deviceActive = True, connectedAt = 100, lastHeartbeat = 100,
        extensionVersion = JStr ''1.0.0'', browser = JStr ''Chrome'', pendingRequests = [] \<rparr>,
      \<lparr> sessionId = ''S2'', apiKey = ''K'', ws = 2, ip = ''10.0.0.2'',
        deviceActive = True, connectedAt = 110, lastHeartbeat = 110,
        extensionVersion = JStr ''1.0.0'', browser = JStr ''Chrome'', pendingRequests = [] \<rparr>,
      \<lparr> sessionId = ''S3'', apiKey = ''K'', ws = 3, ip = ''10.0.0.3'',
        deviceActive = True, connectedAt = 120, lastHeartbeat = 120,
        extensionVersion = JStr ''1.0.0'', browser = JStr ''Chrome'', pendingRequests = [] \<rparr>]"
  "cursor demoThree ''K'' = 0"
  "deviceSelectionStrategy (config demoThree) = ''round-robin''"
  by (simp_all add: demoThree_def runOps_def SessionManager_new_def defaultConfig_def
      SessionManager_config_def addSession_def getSessions_def updateSessionStatus_def
      getSession_def getActiveSessions_def cursor_def Let_def)

lemma demoMixed_eval:
  "map sessionId (getSessions demoMixed ''K'') = [''S1'', ''S2'', ''S3'', ''S4'']"
  "map deviceActive (getSessions demoMixed ''K'') = [True, False, True, True]"
  "map sessionId (filter deviceActive (getSessions demoMixed ''K'')) = [''S1'', ''S3'', ''S4'']"
  "cursor demoMixed ''K'' = 0"
  "deviceSelectionStrategy (config demoMixed) = ''round-robin''"
  by (simp_all add: demoMixed_def runOps_def SessionManager_new_def defaultConfig_def
      SessionManager_config_def addSession_def getSessions_def updateSessionStatus_def
      getSession_def cursor_def Let_def)

lemma upt_4: "[0..<4] = [0, 1, 2, 3]"
  by (simp add: upt_rec)

text \<open>
  Claim C5, as stated, fails when the cursor is not a multiple of the number of active
  sessions. Three sessions are registered and activated and one selection is made; the
  active sessions are still \<open>S1\<close>, \<open>S2\<close>, \<open>S3\<close> in insertion order and nothing else
  happens, yet the next four consecutive selections return \<open>S2\<close>, \<open>S3\<close>, \<open>S1\<close>, \<open>S2\<close>:
  the three calls that follow do not go through the sessions in insertion order, and the
  four do not return \<open>S1\<close>, \<open>S2\<close>, \<open>S3\<close>, \<open>S1\<close>.
\<close>

theorem C5_counterexample:
  "deviceSelectionStrategy (config (snd (selectN 1 ''K'' 0 demoThree))) = ''round-robin''
   \<and> map sessionId (filter deviceActive (getSessions (snd (selectN 1 ''K'' 0 demoThree)) ''K''))
       = [''S1'', ''S2'', ''S3'']
   \<and> map (map_option sessionId) (fst (selectN 4 ''K'' 0 (snd (selectN 1 ''K'' 0 demoThree))))
       = [Some ''S2'', Some ''S3'', Some ''S1'', Some ''S2'']
   \<and> map (map_option sessionId) (fst (selectN 4 ''K'' 0 (snd (selectN 1 ''K'' 0 demoThree))))
       \<noteq> [Some ''S1'', Some ''S2'', Some ''S3'', Some ''S1'']"
proof -
  define st1 where "st1 = snd (selectN 1 ''K'' 0 demoThree)"
  have one: "st1 = snd (getSessionForSending ''K'' 0 demoThree)"
    by (simp add: st1_def split_def)
  have a: "deviceSelectionStrategy (config demoThree) \<noteq> ''random''"
    and b: "getActiveSessions demoThree ''K'' \<noteq> []"
    and c: "length (getActiveSessions demoThree ''K'') = 1 \<or> cursor demoThree ''K'' < 2 ^ 53"
    by (simp_all add: demoThree_eval)
  note s = step_rr [OF a b c, of 0, folded one]
  from s have A: "getActiveSessions st1 ''K'' = getActiveSessions demoThree ''K''"
    and cfg: "config st1 = config demoThree"
    and cur: "cursor st1 ''K'' = 1"
    by (simp_all add: demoThree_eval)
  have a1: "deviceSelectionStrategy (config st1) \<noteq> ''random''"
    and b1: "getActiveSessions st1 ''K'' \<noteq> []"
    and c1: "length (getActiveSessions st1 ''K'') = 1 \<or> cursor st1 ''K'' + 4 \<le> 2 ^ 53"
    by (simp_all add: A cfg cur demoThree_eval)
  from selectN_rr [OF a1 b1 c1, of 0]
  have r: "map (map_option sessionId) (fst (selectN 4 ''K'' 0 st1))
        = [Some ''S2'', Some ''S3'', Some ''S1'', Some ''S2'']"
    by (simp add: A cur demoThree_eval upt_4)
  have l: "map sessionId (filter deviceActive (getSessions st1 ''K'')) = [''S1'', ''S2'', ''S3'']"
    using A by (simp add: demoThree_eval getActiveSessions_def [symmetric])
  have g: "deviceSelectionStrategy (config st1) = ''round-robin''"
    by (simp add: cfg demoThree_eval)
  from g l r show ?thesis
    unfolding st1_def [symmetric] by simp
qed

text \<open>
  Claim C5, amended. Under any strategy other than random, take a key with at least one
  active session; let \<open>A\<close> be the sessions of its bucket whose \<open>deviceActive\<close> flag is
  true, in bucket order, \<open>N\<close> their number and \<open>c\<close> the key's cursor, and consider \<open>n\<close>
  selection calls in a row during which the cursor stays within \<open>2 ^ 53\<close> (with a single
  active session the cursor is not used). Call number \<open>i\<close>, counted from 0, returns
  \<open>A ! ((c + i) mod N)\<close>. So any \<open>N\<close> consecutive calls, starting with call \<open>j\<close>, return
  \<open>A\<close> rotated by \<open>c + j\<close>: each active session exactly once, in the cyclic order of the
  bucket starting at position \<open>(c + j) mod N\<close>, which is \<open>A\<close> itself when \<open>c + j\<close> is a
  multiple of \<open>N\<close>. Call \<open>i + N\<close> returns what call \<open>i\<close> returned. The calls leave the
  sessions as they are, and bucket order is insertion order: a registration appends to
  the bucket.
\<close>

theorem C5_round_robin:
  assumes "deviceSelectionStrategy (config st) \<noteq> ''random''"
    and "filter deviceActive (getSessions st k) \<noteq> []"
    and "length (filter deviceActive (getSessions st k)) = 1 \<or> cursor st k + n \<le> 2 ^ 53"
  shows "let A = filter deviceActive (getSessions st k); N = length A; c = cursor st k;
             rs = fst (selectN n k rnd st)
         in rs = map (\<lambda>i. Some (A ! ((c + i) mod N))) [0..<n]
            \<and> (\<forall>j. j + N \<le> n \<longrightarrow> take N (drop j rs) = map Some (rotate (c + j) A))
            \<and> (\<forall>j. j + N \<le> n \<and> (c + j) mod N = 0 \<longrightarrow> take N (drop j rs) = map Some A)
            \<and> (\<forall>i. i + N < n \<longrightarrow> rs ! (i + N) = rs ! i)
            \<and> filter deviceActive (getSessions (snd (selectN n k rnd st)) k) = A
            \<and> sessions (snd (selectN n k rnd st)) = sessions st
            \<and> (\<forall>w mip mver mbrowser sid now s st'.
                  addSession k w mip mver mbrowser sid now st = Inr (s, st') \<longrightarrow>
                  getSessions st' k = getSessions st k @ [s])"
proof -
  let ?A = "filter deviceActive (getSessions st k)"
  let ?N = "length ?A"
  let ?c = "cursor st k"
  let ?rs = "fst (selectN n k rnd st)"
  note g = selectN_rr [OF assms [folded getActiveSessions_def], of rnd, unfolded getActiveSessions_def]
  from g have rs: "?rs = map (\<lambda>i. Some (?A ! ((?c + i) mod ?N))) [0..<n]" by blast
  then have len: "length ?rs = n" by simp
  have nth: "?rs ! i = Some (?A ! ((?c + i) mod ?N))" if "i < n" for i
    using that by (simp add: rs)
  have win: "take ?N (drop j ?rs) = map Some (rotate (?c + j) ?A)" if j: "j + ?N \<le> n" for j
  proof (rule nth_equalityI)
    show "length (take ?N (drop j ?rs)) = length (map Some (rotate (?c + j) ?A))"
      using j len by simp
  next
    fix i assume "i < length (take ?N (drop j ?rs))"
    then have i: "i < ?N" by simp
    with j have "j + i < n" by simp
    from nth [OF this] i j len
    have "take ?N (drop j ?rs) ! i = Some (?A ! ((?c + (j + i)) mod ?N))" by simp
    also have "\<dots> = map Some (rotate (?c + j) ?A) ! i"
      using i by (simp add: nth_rotate add.assoc)
    finally show "take ?N (drop j ?rs) ! i = map Some (rotate (?c + j) ?A) ! i" .
  qed
  have zero: "rotate (?c + j) ?A = ?A" if "(?c + j) mod ?N = 0" for j
    using that by (metis rotate_conv_mod rotate0 id_apply)
  have rep: "?rs ! (i + ?N) = ?rs ! i" if "i + ?N < n" for i
    using that nth [of i] nth [of "i + ?N"] by (simp add: add.assoc [symmetric])
  from g have keep: "filter deviceActive (getSessions (snd (selectN n k rnd st)) k) = ?A"
    and same: "sessions (snd (selectN n k rnd st)) = sessions st"
    by blast+
  from rs win zero rep keep same addSession_appends [of k _ _ _ _ _ _ st]
  show ?thesis unfolding Let_def by (intro conjI allI impI) auto
qed

theorem C5_witness:
  "deviceSelectionStrategy (config demoMixed) \<noteq> ''random''
   \<and> map sessionId (getSessions demoMixed ''K'') = [''S1'', ''S2'', ''S3'', ''S4'']
   \<and> map deviceActive (getSessions demoMixed ''K'') = [True, False, True, True]
   \<and> cursor demoMixed ''K'' + 4 \<le> 2 ^ 53
   \<and> map (map_option sessionId) (fst (selectN 4 ''K'' 0 demoMixed))
       = [Some ''S1'', Some ''S3'', Some ''S4'', Some ''S1'']
   \<and> map (map_option sessionId) (fst (selectN 4 ''K'' 0 demoThree))
       = [Some ''S1'', Some ''S2'', Some ''S3'', Some ''S1'']"
proof -
  have a: "deviceSelectionStrategy (config demoMixed) \<noteq> ''random''"
    by (simp add: demoMixed_eval)
  have b: "filter deviceActive (getSessions demoMixed ''K'') \<noteq> []"
    using demoMixed_eval(3) by auto
  have c: "length (filter deviceActive (getSessions demoMixed ''K'')) = 1
           \<or> cursor demoMixed ''K'' + 4 \<le> 2 ^ 53"
    by (simp add: demoMixed_eval)
  have n: "length (filter deviceActive (getSessions demoMixed ''K'')) = 3"
    using demoMixed_eval(3) [THEN arg_cong, of length] by simp
  from C5_round_robin [OF a b c, of 0]
  have "fst (selectN 4 ''K'' 0 demoMixed)
        = map (\<lambda>i. Some (filter deviceActive (getSessions demoMixed ''K'') ! (i mod 3))) [0..<4]"
    by (simp add: Let_def demoMixed_eval n)
  then have "map (map_option sessionId) (fst (selectN 4 ''K'' 0 demoMixed))
        = map (\<lambda>i. Some (map sessionId (filter deviceActive (getSessions demoMixed ''K'')) ! (i mod 3)))
            [0..<4]"
    by (simp add: upt_4 n)
  then have mixed: "map (map_option sessionId) (fst (selectN 4 ''K'' 0 demoMixed))
       = [Some ''S1'', Some ''S3'', Some ''S4'', Some ''S1'']"
    by (simp add: demoMixed_eval upt_4)
  have a3: "deviceSelectionStrategy (config demoThree) \<noteq> ''random''"
    and b3: "filter deviceActive (getSessions demoThree ''K'') \<noteq> []"
    and c3: "length (filter deviceActive (getSessions demoThree ''K'')) = 1
             \<or> cursor demoThree ''K'' + 4 \<le> 2 ^ 53"
    by (simp_all add: demoThree_eval getActiveSessions_def [symmetric])
  from C5_round_robin [OF a3 b3 c3, of 0]
  have three: "map (map_option sessionId) (fst (selectN 4 ''K'' 0 demoThree))
       = [Some ''S1'', Some ''S2'', Some ''S3'', Some ''S1'']"
    by (simp add: Let_def demoThree_eval getActiveSessions_def [symmetric] upt_4)
  from a mixed three demoMixed_eval show ?thesis by simp
qed

subsection \<open>Removing a session\<close>

lemma locate_Some:
  "locate sid m = Some (k, ss, i) \<Longrightarrow>
     (k, ss) \<in> set m \<and> findIndex (\<lambda>s. sessionId s = sid) ss = Some i"
  by (induction m) (auto split: option.splits)

lemma locate_getSession_scan:
  "getSession_scan sid (map snd m) = map_option (\<lambda>(k, ss, i). ss ! i) (locate sid m)"
  by (induction m) (auto simp: find_findIndex split: option.splits)

lemma locate_None_iff:
  "(locate sid m = None) = (\<forall>s \<in> set (concat (map snd m)). sessionId s \<noteq> sid)"
  by (induction m) (auto simp: findIndex_None split: option.splits)

lemma map_of_distinct_member:
  "distinct (map fst m) \<Longrightarrow> (k, v) \<in> set m \<Longrightarrow> map_of m k = Some v"
  by simp

lemma rejectAll_fields [simp]:
  "config (rejectAll e ps st) = config st"
  "roundRobinCounters (rejectAll e ps st) = roundRobinCounters st"
  "conns (rejectAll e ps st) = conns st"
  "console (rejectAll e ps st) = console st"
  by (induction e ps st rule: rejectAll.induct)
     (simp_all add: rejectPromise_def settle_def clearTimeout_def)

lemma rejectAll_promises:
  "promises (rejectAll e ps st) h =
     (if h \<in> promiseOf ` snd ` set ps
      then (case promises st h of Pending \<Rightarrow> Rejected e | p \<Rightarrow> p)
      else promises st h)"
proof (induction e ps st rule: rejectAll.induct)
  case (1 e st)
  then show ?case by simp
next
  case (2 e rid pr rest st)
  then show ?case
    by (auto simp: rejectPromise_def settle_def clearTimeout_def split: promise.splits)
qed

lemma rejectAll_timers:
  "map_of (timers (rejectAll e ps st)) t =
     (if t \<in> timeoutId ` snd ` set ps then None else map_of (timers st) t)"
proof (induction e ps st rule: rejectAll.induct)
  case (1 e st)
  then show ?case by simp
next
  case (2 e rid pr rest st)
  then show ?case
    by (auto simp: rejectPromise_def settle_def clearTimeout_def delete_conv')
qed

lemma removeSession_found:
  assumes "locate sid (sessions st) = Some (k, ss, i)"
  shows "fst (removeSession sid st) = True"
    and "promises (snd (removeSession sid st)) = promises (rejectAll connectionLost (pendingRequests (ss ! i)) st)"
    and "timers (snd (removeSession sid st)) = timers (rejectAll connectionLost (pendingRequests (ss ! i)) st)"
    and "roundRobinCounters (snd (removeSession sid st)) =
           (if take i ss @ drop (Suc i) ss = [] then AList.delete k (roundRobinCounters st)
            else roundRobinCounters st)"
    and "conns (snd (removeSession sid st)) = conns st"
    and "console (snd (removeSession sid st)) = console st"
    and "config (snd (removeSession sid st)) = config st"
  using assms by (simp_all add: removeSession_def Let_def)

text \<open>The failure \<open>removeSession\<close> rejects with: an \<^verbatim>\<open>Error\<close> that carries the
  \<^verbatim>\<open>CONNECTION_LOST\<close> tag at the start of its message and has no \<^verbatim>\<open>code\<close>
  property.\<close>

lemma connectionLost_eq:
  "connectionLost = Failure None ''CONNECTION_LOST: WebSocket connection lost'' JUndefined"
  by (simp add: connectionLost_def newError_def)

text \<open>
  Claim C6. In a state whose session map has one entry per key, \<open>removeSession\<close> either
  finds no session with the id, and then returns false and the state it was given, or it
  finds the session, in the bucket of some key. In that case it returns true; for every
  entry of the session's pending map the timer is no longer armed and the promise, if it
  was pending, is rejected with the connection-lost failure, the \<^verbatim>\<open>Error\<close> whose
  message is \<^verbatim>\<open>CONNECTION_LOST: WebSocket connection lost\<close>; the key's bucket is the
  old one without the session; if that leaves no session, both the bucket and the key's
  round-robin cursor are gone from their maps, and otherwise the cursors are as before;
  the buckets and cursors of all other keys are untouched.
\<close>

theorem C6_removeSession:
  assumes "distinctKeys st"
  shows "case locate sid (sessions st) of
           None \<Rightarrow> getSession sid st = None \<and> removeSession sid st = (False, st)
         | Some (k, ss, i) \<Rightarrow>
             getSession sid st = Some (ss ! i) \<and> getSessions st k = ss \<and> i < length ss
             \<and> fst (removeSession sid st) = True
             \<and> (\<forall>(rid, pr) \<in> set (pendingRequests (ss ! i)).
                   map_of (timers (snd (removeSession sid st))) (timeoutId pr) = None
                   \<and> promises (snd (removeSession sid st)) (promiseOf pr) =
                       (case promises st (promiseOf pr) of
                          Pending \<Rightarrow> Rejected (Failure None ''CONNECTION_LOST: WebSocket connection lost'' JUndefined) | p \<Rightarrow> p))
             \<and> getSessions (snd (removeSession sid st)) k = take i ss @ drop (Suc i) ss
             \<and> (take i ss @ drop (Suc i) ss = [] \<longrightarrow>
                   map_of (sessions (snd (removeSession sid st))) k = None
                   \<and> map_of (roundRobinCounters (snd (removeSession sid st))) k = None)
             \<and> (take i ss @ drop (Suc i) ss \<noteq> [] \<longrightarrow>
                   roundRobinCounters (snd (removeSession sid st)) = roundRobinCounters st)
             \<and> (\<forall>k'. k' \<noteq> k \<longrightarrow>
                   map_of (sessions (snd (removeSession sid st))) k' = map_of (sessions st) k'
                   \<and> map_of (roundRobinCounters (snd (removeSession sid st))) k'
                       = map_of (roundRobinCounters st) k')"
proof (cases "locate sid (sessions st)")
  case None
  then show ?thesis
    by (simp add: getSession_def locate_getSession_scan removeSession_absent)
next
  case (Some t)
  obtain k ss i where t: "t = (k, ss, i)" by (cases t)
  note loc = Some [unfolded t]
  note mem = locate_Some [OF loc]
  from mem have i: "i < length ss" using findIndex_Some by blast
  from assms mem have bucket: "map_of (sessions st) k = Some ss"
    by (simp add: distinctKeys_def)
  have g: "getSession sid st = Some (ss ! i)"
    by (simp add: getSession_def locate_getSession_scan loc)
  let ?st' = "snd (removeSession sid st)"
  note f = removeSession_found [OF loc]
  have pend: "\<forall>(rid, pr) \<in> set (pendingRequests (ss ! i)).
                   map_of (timers ?st') (timeoutId pr) = None
                   \<and> promises ?st' (promiseOf pr) =
                       (case promises st (promiseOf pr) of
                          Pending \<Rightarrow> Rejected connectionLost | p \<Rightarrow> p)"
    by (auto simp: f(2) f(3) rejectAll_promises rejectAll_timers image_iff)
  have sess: "sessions ?st' =
       (if take i ss @ drop (Suc i) ss = [] then AList.delete k (sessions st)
        else AList.update k (take i ss @ drop (Suc i) ss) (sessions st))"
    by (rule removeSession_sessions [OF loc])
  have b': "getSessions ?st' k = take i ss @ drop (Suc i) ss"
    by (simp add: getSessions_def sess delete_conv' update_conv')
  have gone: "take i ss @ drop (Suc i) ss = [] \<longrightarrow>
                   map_of (sessions ?st') k = None \<and> map_of (roundRobinCounters ?st') k = None"
    by (simp add: sess f(4) delete_conv')
  have kept: "take i ss @ drop (Suc i) ss \<noteq> [] \<longrightarrow> roundRobinCounters ?st' = roundRobinCounters st"
    by (simp add: f(4))
  have others: "\<forall>k'. k' \<noteq> k \<longrightarrow>
                   map_of (sessions ?st') k' = map_of (sessions st) k'
                   \<and> map_of (roundRobinCounters ?st') k' = map_of (roundRobinCounters st) k'"
    by (simp add: sess f(4) delete_conv' update_conv')
  from g bucket i f(1) pend b' gone kept others show ?thesis
    unfolding connectionLost_eq [symmetric] by (simp add: Some t getSessions_def)
qed


theorem C6_witness:
  "distinctKeys demoSent
   \<and> fst (removeSession ''S1'' demoSent)
   \<and> promises (snd (removeSession ''S1'' demoSent)) 7 = Rejected (Failure None ''CONNECTION_LOST: WebSocket connection lost'' JUndefined)
   \<and> map_of (timers (snd (removeSession ''S1'' demoSent))) 3 = None
   \<and> map_of (sessions (snd (removeSession ''S1'' demoSent))) ''K'' = None
   \<and> removeSession ''S2'' demoSent = (False, demoSent)"
proof -
  have dk: "distinctKeys demoSent"
    by (simp add: distinctKeys_def demoSent_eval)
  have l1: "locate ''S1'' (sessions demoSent)
            = Some (''K'', [demoSession\<lparr> pendingRequests := [(''R1'', demoPending)] \<rparr>], 0)"
    by (simp add: demoSent_eval demoSession_def)
  have l2: "locate ''S2'' (sessions demoSent) = None"
    by (simp add: demoSent_eval demoSession_def)
  from C6_removeSession [OF dk, of "''S1''"] C6_removeSession [OF dk, of "''S2''"] dk
  show ?thesis
    by (simp add: l1 l2 demoSent_eval demoPending_def demoSession_def)
qed

lemma modifySession_keys: "map fst (modifySession sid f m) = map fst m"
  by (induction m) (auto split: option.splits)

lemma distinctKeys_applyOp: "distinctKeys st \<Longrightarrow> distinctKeys (applyOp x st)"
proof (cases x)
  case (Register k w mip mver mbrowser sid now)
  assume inv: "distinctKeys st"
  show ?thesis
  proof (cases "addSession k w mip mver mbrowser sid now st")
    case (Inl e)
    with Register inv show ?thesis by simp
  next
    case (Inr p)
    obtain s st' where p: "p = (s, st')" by (cases p)
    from addSession_sessions [OF Inr [unfolded p]] inv
    have "distinctKeys st'" by (simp add: distinctKeys_def distinct_update)
    with Register Inr p show ?thesis by simp
  qed
next
  case (Unregister sid)
  assume inv: "distinctKeys st"
  show ?thesis
  proof (cases "locate sid (sessions st)")
    case None
    with Unregister inv show ?thesis by (simp add: removeSession_absent)
  next
    case (Some t)
    obtain k ss i where t: "t = (k, ss, i)" by (cases t)
    from removeSession_sessions [OF Some [unfolded t]] inv
    have "distinctKeys (snd (removeSession sid st))"
      by (simp add: distinctKeys_def distinct_update distinct_delete)
    with Unregister show ?thesis by simp
  qed
next
  case (SetStatus sid li rd)
  assume inv: "distinctKeys st"
  then show ?thesis
    unfolding SetStatus
    by (auto simp: updateSessionStatus_def distinctKeys_def modifySession_keys
        split: option.splits)
qed

lemma distinctKeys_runOps: "distinctKeys (runOps ops (SessionManager_new c))"
proof -
  have "distinctKeys st \<Longrightarrow> distinctKeys (fold applyOp ops st)" for st
    by (induction ops arbitrary: st) (simp_all add: distinctKeys_applyOp)
  moreover have "distinctKeys (SessionManager_new c)"
    by (simp add: distinctKeys_def SessionManager_new_def)
  ultimately show ?thesis by (simp add: runOps_def)
qed


subsection \<open>The heartbeat monitor\<close>

lemma staleSessionIds_alt:
  "staleSessionIds now st = map sessionId (filter (isStale now st) (allSessions st))"
proof -
  have "concat (map (\<lambda>(k, ss). map f (filter P ss)) m) = map f (filter P (concat (map snd m)))"
    for f :: "session \<Rightarrow> string" and P and m :: "(string \<times> session list) list"
    by (induction m) auto
  moreover have "isStale now st = (\<lambda>s. now - lastHeartbeat s > heartbeatTimeout (config st))"
    by (rule ext) (simp add: isStale_def)
  ultimately show ?thesis
    by (simp add: staleSessionIds_def allSessions_def)
qed

lemma filter_remove_nth:
  "distinct (map f xs) \<Longrightarrow> findIndex (\<lambda>x. f x = a) xs = Some i \<Longrightarrow>
     filter (\<lambda>x. f x \<noteq> a) xs = take i xs @ drop (Suc i) xs"
proof (induction xs arbitrary: i)
  case Nil
  then show ?case by simp
next
  case (Cons x xs)
  show ?case
  proof (cases "f x = a")
    case True
    with Cons.prems have "i = 0" by simp
    moreover from True Cons.prems(1) have "a \<notin> f ` set xs" by simp
    then have "\<forall>y \<in> set xs. f y \<noteq> a" by blast
    then have "filter (\<lambda>x. f x \<noteq> a) xs = xs" by (induction xs) auto
    ultimately show ?thesis using True by simp
  next
    case False
    with Cons.prems obtain j where j: "findIndex (\<lambda>x. f x = a) xs = Some j" and i: "i = Suc j"
      by auto
    from Cons.IH [OF _ j] Cons.prems(1) False i show ?thesis by simp
  qed
qed

lemma filter_id_when_absent:
  "\<forall>x \<in> set xs. f x \<noteq> a \<Longrightarrow> filter (\<lambda>x. f x \<noteq> a) xs = xs"
  by (induction xs) auto

lemma remove_located:
  assumes "distinct (map fst m)" and "distinct (map sessionId (concat (map snd m)))"
    and "locate sid m = Some (k, ss, i)" and "ss' = take i ss @ drop (Suc i) ss"
  shows "concat (map snd (if ss' = [] then AList.delete k m else AList.update k ss' m))
         = filter (\<lambda>s. sessionId s \<noteq> sid) (concat (map snd m))"
  using assms(1-3)
proof (induction m)
  case Nil
  then show ?case by simp
next
  case (Cons b rest)
  obtain k1 ss1 where b: "b = (k1, ss1)" by (cases b)
  from Cons.prems(1) b have k1: "k1 \<notin> fst ` set rest" and dr: "distinct (map fst rest)" by auto
  from Cons.prems(2) b have d1: "distinct (map sessionId ss1)"
    and d2: "distinct (map sessionId (concat (map snd rest)))"
    and disj: "sessionId ` set ss1 \<inter> sessionId ` set (concat (map snd rest)) = {}"
    by (auto simp del: set_concat)
  show ?case
  proof (cases "findIndex (\<lambda>s. sessionId s = sid) ss1")
    case (Some i1)
    with Cons.prems(3) b have eq: "k = k1" "ss = ss1" "i = i1" by auto
    from findIndex_Some [OF Some] have "sid \<in> sessionId ` set ss1" by force
    with disj have "\<forall>s \<in> set (concat (map snd rest)). sessionId s \<noteq> sid" by blast
    then have r: "filter (\<lambda>s. sessionId s \<noteq> sid) (concat (map snd rest)) = concat (map snd rest)"
      by (rule filter_id_when_absent)
    from filter_remove_nth [OF d1 Some] assms(4) eq
    have f: "filter (\<lambda>s. sessionId s \<noteq> sid) ss1 = ss'" by simp
    from k1 have "AList.delete k1 rest = rest" by simp
    with b eq r f show ?thesis by simp
  next
    case None
    with Cons.prems(3) b have loc: "locate sid rest = Some (k, ss, i)" by simp
    from locate_Some [OF loc] k1 have ne: "k \<noteq> k1" by force
    from None have f: "filter (\<lambda>s. sessionId s \<noteq> sid) ss1 = ss1"
      by (intro filter_id_when_absent) (simp add: findIndex_None)
    from Cons.IH [OF dr d2 loc] b ne f show ?thesis by (cases "ss' = []") simp_all
  qed
qed

lemma removeSession_allSessions:
  assumes "distinctKeys st" and "distinctIds st"
  shows "allSessions (snd (removeSession sid st))
         = filter (\<lambda>s. sessionId s \<noteq> sid) (allSessions st)"
proof (cases "locate sid (sessions st)")
  case None
  then have "\<forall>s \<in> set (allSessions st). sessionId s \<noteq> sid"
    by (simp add: locate_None_iff allSessions_def)
  then have "filter (\<lambda>s. sessionId s \<noteq> sid) (allSessions st) = allSessions st"
    by (rule filter_id_when_absent)
  with None show ?thesis by (simp add: removeSession_absent)
next
  case (Some t)
  obtain k ss i where t: "t = (k, ss, i)" by (cases t)
  from remove_located [OF _ _ Some [unfolded t] refl] assms
    removeSession_sessions [OF Some [unfolded t]]
  show ?thesis
    by (simp add: allSessions_def distinctKeys_def distinctIds_def)
qed

lemma removeSession_distinctKeys:
  assumes "distinctKeys st"
  shows "distinctKeys (snd (removeSession sid st))"
  using distinctKeys_applyOp [OF assms, of "Unregister sid"] by simp

lemma removeSession_distinctIds:
  assumes "distinctKeys st" and "distinctIds st"
  shows "distinctIds (snd (removeSession sid st))"
  using assms removeSession_allSessions [OF assms, of sid]
  by (simp add: distinctIds_def distinct_map_filter)


lemma gatewayOnStale_fields [simp]:
  "sessions (gatewayOnStale s st) = sessions st"
  "config (gatewayOnStale s st) = config st"
  "promises (gatewayOnStale s st) = promises st"
  "timers (gatewayOnStale s st) = timers st"
  "roundRobinCounters (gatewayOnStale s st) = roundRobinCounters st"
  "console (gatewayOnStale s st) = console st @ [LogStale (sessionId s)]"
  by (simp_all add: gatewayOnStale_def consoleLog_def wsClose_def Let_def)

lemma gatewayOnStale_conns:
  "readyState (conns (gatewayOnStale s st) (ws s)) \<noteq> 1"
  "readyState (conns st w) \<noteq> 1 \<Longrightarrow> readyState (conns (gatewayOnStale s st) w) \<noteq> 1"
  by (simp_all add: gatewayOnStale_def consoleLog_def wsClose_def Let_def)

lemma advances_refl: "advances st st"
  by (simp add: advances_def)

lemma advances_promises:
  "advances a b \<Longrightarrow>
     promises b h = promises a h \<or> (promises a h = Pending \<and> promises b h = Rejected connectionLost)"
  by (simp add: advances_def)

lemma advances_trans:
  assumes "advances a b" and "advances b c"
  shows "advances a c"
proof -
  have p: "promises c h = promises a h
           \<or> (promises a h = Pending \<and> promises c h = Rejected connectionLost)" for h
    using advances_promises [OF assms(1), of h] advances_promises [OF assms(2), of h] by auto
  from assms have "config c = config a"
    and "\<forall>w. readyState (conns a w) \<noteq> 1 \<longrightarrow> readyState (conns c w) \<noteq> 1"
    and "\<forall>t. map_of (timers a) t = None \<longrightarrow> map_of (timers c) t = None"
    by (simp_all add: advances_def)
  with p show ?thesis by (simp add: advances_def)
qed

lemma evicted_advances:
  assumes "evicted a s" and "advances a b"
  shows "evicted b s"
proof -
  have p: "promises b h \<noteq> Pending" if "promises a h \<noteq> Pending" for h
    using advances_promises [OF assms(2), of h] that by auto
  have t: "map_of (timers b) x = None" if "map_of (timers a) x = None" for x
    using assms(2) that by (simp add: advances_def)
  have c: "readyState (conns b (ws s)) \<noteq> 1"
    using assms by (simp add: advances_def evicted_def)
  from assms(1) have "\<forall>(rid, pr) \<in> set (pendingRequests s).
      promises a (promiseOf pr) \<noteq> Pending \<and> map_of (timers a) (timeoutId pr) = None"
    by (simp add: evicted_def list_all_iff)
  with p t have "\<forall>(rid, pr) \<in> set (pendingRequests s).
      promises b (promiseOf pr) \<noteq> Pending \<and> map_of (timers b) (timeoutId pr) = None"
    by (auto simp: split_def)
  with c show ?thesis by (simp add: evicted_def list_all_iff)
qed

lemma removeSession_advances: "advances st (snd (removeSession sid st))"
proof (cases "locate sid (sessions st)")
  case None
  then show ?thesis by (simp add: removeSession_absent advances_refl)
next
  case (Some t)
  obtain k ss i where t: "t = (k, ss, i)" by (cases t)
  note f = removeSession_found [OF Some [unfolded t]]
  show ?thesis
    unfolding advances_def
    by (auto simp: f rejectAll_promises rejectAll_timers split: promise.splits)
qed

lemma gatewayOnStale_advances: "advances st (gatewayOnStale s st)"
  using gatewayOnStale_conns(2) [of st _ s] by (simp add: advances_def)

lemma evictOne_advances: "advances st (evictOne sid st)"
  unfolding evictOne_def
  by (cases "getSession sid st")
     (auto intro: removeSession_advances advances_trans [OF gatewayOnStale_advances])

lemma same_id_same_session:
  assumes "distinctIds st" and "s \<in> set (allSessions st)" and "s' \<in> set (allSessions st)"
    and "sessionId s = sessionId s'"
  shows "s = s'"
  using assms by (auto simp: distinctIds_def distinct_map dest: inj_onD)

lemma getSession_member:
  assumes "distinctIds st" and "s \<in> set (allSessions st)"
  shows "getSession (sessionId s) st = Some s"
proof -
  from assms(2) have "locate (sessionId s) (sessions st) \<noteq> None"
    by (auto simp: locate_None_iff allSessions_def)
  then obtain k ss i where loc: "locate (sessionId s) (sessions st) = Some (k, ss, i)"
    by (cases "locate (sessionId s) (sessions st)") auto
  from locate_Some [OF loc] findIndex_Some [of "\<lambda>x. sessionId x = sessionId s" ss i]
  have "(k, ss) \<in> set (sessions st)" "i < length ss" "sessionId (ss ! i) = sessionId s"
    by auto
  then have "ss ! i \<in> set (allSessions st)"
    by (auto simp: allSessions_def intro!: bexI [of _ "(k, ss)"])
  with same_id_same_session [OF assms(1) this assms(2)] \<open>sessionId (ss ! i) = sessionId s\<close>
  have "ss ! i = s" by simp
  with loc show ?thesis by (simp add: getSession_def locate_getSession_scan)
qed

lemma getSession_absent:
  assumes "sid \<notin> sessionId ` set (allSessions st)"
  shows "getSession sid st = None"
proof -
  from assms have "locate sid (sessions st) = None"
    by (auto simp: locate_None_iff allSessions_def)
  then show ?thesis by (simp add: getSession_def locate_getSession_scan)
qed

lemma removeSession_evicts:
  assumes "getSession sid st = Some s"
  shows "list_all (\<lambda>(rid, pr). promises (snd (removeSession sid st)) (promiseOf pr) \<noteq> Pending
                               \<and> map_of (timers (snd (removeSession sid st))) (timeoutId pr) = None)
                  (pendingRequests s)"
proof -
  from assms obtain k ss i where loc: "locate sid (sessions st) = Some (k, ss, i)"
    and s: "s = ss ! i"
    by (cases "locate sid (sessions st)") (auto simp: getSession_def locate_getSession_scan)
  note f = removeSession_found [OF loc]
  show ?thesis
    unfolding list_all_iff s
    by (auto simp: f rejectAll_promises rejectAll_timers image_iff split: promise.splits)
qed

lemma evictOne_member:
  assumes "distinctIds st" and "s \<in> set (allSessions st)"
  shows "evicted (evictOne (sessionId s) st) s"
    and "console (evictOne (sessionId s) st) = console st @ [LogStale (sessionId s)]"
proof -
  note g = getSession_member [OF assms]
  let ?st1 = "gatewayOnStale s st"
  have g1: "getSession (sessionId s) ?st1 = Some s"
    using g by (simp add: getSession_def)
  have e: "evictOne (sessionId s) st = snd (removeSession (sessionId s) ?st1)"
    by (simp add: evictOne_def g)
  from g1 obtain k ss i where loc: "locate (sessionId s) (sessions ?st1) = Some (k, ss, i)"
    by (cases "locate (sessionId s) (sessions ?st1)") (auto simp: getSession_def locate_getSession_scan)
  note f = removeSession_found [OF loc]
  show "console (evictOne (sessionId s) st) = console st @ [LogStale (sessionId s)]"
    by (simp add: e f(6))
  show "evicted (evictOne (sessionId s) st) s"
    unfolding evicted_def e
    using removeSession_evicts [OF g1] gatewayOnStale_conns(1) [of s st] by (simp add: f(5))
qed

lemma evictOne_sessions:
  assumes "distinctKeys st" and "distinctIds st"
  shows "allSessions (evictOne sid st) = filter (\<lambda>s. sessionId s \<noteq> sid) (allSessions st)"
    and "distinctKeys (evictOne sid st)"
    and "distinctIds (evictOne sid st)"
proof -
  let ?st1 = "case getSession sid st of Some s \<Rightarrow> gatewayOnStale s st | None \<Rightarrow> st"
  have same: "sessions ?st1 = sessions st" by (cases "getSession sid st") simp_all
  then have dk: "distinctKeys ?st1" and di: "distinctIds ?st1" and a: "allSessions ?st1 = allSessions st"
    using assms by (simp_all add: distinctKeys_def distinctIds_def allSessions_def)
  show "allSessions (evictOne sid st) = filter (\<lambda>s. sessionId s \<noteq> sid) (allSessions st)"
    unfolding evictOne_def using removeSession_allSessions [OF dk di, of sid] a by simp
  show "distinctKeys (evictOne sid st)"
    unfolding evictOne_def by (rule removeSession_distinctKeys [OF dk])
  show "distinctIds (evictOne sid st)"
    unfolding evictOne_def by (rule removeSession_distinctIds [OF dk di])
qed

lemma removeStale_Cons:
  "removeStale (Some gatewayOnStale) (sid # rest) st
     = removeStale (Some gatewayOnStale) rest (evictOne sid st)"
  by (cases "getSession sid st") (simp_all add: evictOne_def)

lemma removeStale_gateway:
  assumes "distinctKeys st" and "distinctIds st" and "distinct ids"
    and "set ids \<subseteq> sessionId ` set (allSessions st)"
  shows "allSessions (removeStale (Some gatewayOnStale) ids st)
           = filter (\<lambda>s. sessionId s \<notin> set ids) (allSessions st)
         \<and> advances st (removeStale (Some gatewayOnStale) ids st)
         \<and> console (removeStale (Some gatewayOnStale) ids st) = console st @ map LogStale ids
         \<and> (\<forall>s \<in> set (allSessions st). sessionId s \<in> set ids \<longrightarrow>
               evicted (removeStale (Some gatewayOnStale) ids st) s)"
  using assms
proof (induction ids arbitrary: st)
  case Nil
  then show ?case by (simp add: advances_refl)
next
  case (Cons sid rest)
  let ?st1 = "evictOne sid st"
  let ?st' = "removeStale (Some gatewayOnStale) rest ?st1"
  note es = evictOne_sessions [OF Cons.prems(1,2), of sid]
  from Cons.prems(4) obtain s0 where s0: "s0 \<in> set (allSessions st)" "sessionId s0 = sid"
    by auto
  from Cons.prems(3) have dr: "distinct rest" and nsid: "sid \<notin> set rest" by simp_all
  have sub: "set rest \<subseteq> sessionId ` set (allSessions ?st1)"
  proof
    fix r assume r: "r \<in> set rest"
    with Cons.prems(4) obtain s where "s \<in> set (allSessions st)" "sessionId s = r" by auto
    moreover from r nsid have "r \<noteq> sid" by auto
    ultimately show "r \<in> sessionId ` set (allSessions ?st1)"
      by (auto simp: es(1) image_iff)
  qed
  note ih = Cons.IH [OF es(2) es(3) dr sub]
  have a: "allSessions ?st' = filter (\<lambda>s. sessionId s \<notin> set (sid # rest)) (allSessions st)"
    using ih by (simp add: es(1) conj_commute)
  have adv: "advances st ?st'"
    using ih evictOne_advances [of st sid] by (blast intro: advances_trans)
  have con: "console ?st' = console st @ map LogStale (sid # rest)"
    using ih evictOne_member(2) [OF Cons.prems(2) s0(1)] s0(2) by simp
  have ev: "evicted ?st' s" if "s \<in> set (allSessions st)" "sessionId s \<in> set (sid # rest)" for s
  proof (cases "sessionId s = sid")
    case True
    from evictOne_member(1) [OF Cons.prems(2) that(1)] True have "evicted ?st1 s" by simp
    with ih show ?thesis by (blast intro: evicted_advances)
  next
    case False
    with that have "s \<in> set (allSessions ?st1)" "sessionId s \<in> set rest"
      by (simp_all add: es(1))
    with ih show ?thesis by blast
  qed
  from a adv con ev show ?case by (simp only: removeStale_Cons) blast
qed


lemma getSessions_subset: "set (getSessions st k) \<subseteq> set (allSessions st)"
proof (cases "map_of (sessions st) k")
  case None
  then show ?thesis by (simp add: getSessions_def)
next
  case (Some ss)
  then have "(k, ss) \<in> set (sessions st)" by (rule map_of_SomeD)
  then have "set ss \<subseteq> set (allSessions st)" by (auto simp: allSessions_def)
  with Some show ?thesis by (simp add: getSessions_def)
qed

lemma stale_id_iff:
  assumes "distinctIds st" and "s \<in> set (allSessions st)"
  shows "(sessionId s \<in> set (staleSessionIds now st)) = isStale now st s"
proof
  assume "sessionId s \<in> set (staleSessionIds now st)"
  then obtain s' where s': "s' \<in> set (allSessions st)" "isStale now st s'"
    "sessionId s' = sessionId s"
    by (auto simp: staleSessionIds_alt)
  from same_id_same_session [OF assms(1) s'(1) assms(2) s'(3)] s'(2)
  show "isStale now st s" by simp
next
  assume "isStale now st s"
  with assms(2) show "sessionId s \<in> set (staleSessionIds now st)"
    by (auto simp: staleSessionIds_alt)
qed

text \<open>
  Claim C7. The stale threshold of the default configuration is 60000 ms, twice the
  default heartbeat interval. Take a state whose session map has one entry per key and in
  which no session id occurs twice, and run one tick of the monitor, with the gateway's
  callback, at time \<open>now\<close>. The ids collected before any removal are those of the
  sessions whose last heartbeat is more than the threshold ago; the callback runs once
  for each of them, in that order (it logs the session and closes its socket if open);
  afterwards the registry holds exactly the sessions that were not stale. For every stale
  session: its socket is not open; each of its pending requests has no armed timer and a
  settled promise, rejected if it was pending before the tick with the connection-lost
  failure of \<open>removeSession\<close>, the \<^verbatim>\<open>Error\<close> with the message
  \<^verbatim>\<open>CONNECTION_LOST: WebSocket connection lost\<close> and no \<^verbatim>\<open>code\<close>; the session cannot be found by its id; and it is in no key's
  \<open>getActiveSessions\<close> listing.
\<close>

theorem C7_heartbeat_tick:
  assumes "distinctKeys st" and "distinctIds st"
  shows "heartbeatTimeout defaultConfig = 60000
       \<and> heartbeatTimeout defaultConfig = 2 * heartbeatInterval defaultConfig
       \<and> staleSessionIds now st = map sessionId (filter (isStale now st) (allSessions st))
       \<and> console (heartbeatTick (Some gatewayOnStale) now st)
           = console st @ map LogStale (staleSessionIds now st)
       \<and> allSessions (heartbeatTick (Some gatewayOnStale) now st)
           = filter (\<lambda>s. \<not> isStale now st s) (allSessions st)
       \<and> (\<forall>k. \<forall>s \<in> set (getSessions st k). isStale now st s \<longrightarrow>
             readyState (conns (heartbeatTick (Some gatewayOnStale) now st) (ws s)) \<noteq> 1
             \<and> (\<forall>(rid, pr) \<in> set (pendingRequests s).
                   map_of (timers (heartbeatTick (Some gatewayOnStale) now st)) (timeoutId pr) = None
                   \<and> promises (heartbeatTick (Some gatewayOnStale) now st) (promiseOf pr) \<noteq> Pending
                   \<and> (promises st (promiseOf pr) = Pending \<longrightarrow>
                        promises (heartbeatTick (Some gatewayOnStale) now st) (promiseOf pr)
                          = Rejected (Failure None ''CONNECTION_LOST: WebSocket connection lost'' JUndefined)))
             \<and> getSession (sessionId s) (heartbeatTick (Some gatewayOnStale) now st) = None
             \<and> (\<forall>k'. sessionId s \<notin> set (map infoSessionId
                         (fst (gateway_getActiveSessions k'
                                 (heartbeatTick (Some gatewayOnStale) now st))))))"
proof -
  let ?ids = "staleSessionIds now st"
  let ?st' = "heartbeatTick (Some gatewayOnStale) now st"
  have st': "?st' = removeStale (Some gatewayOnStale) ?ids st"
    by (simp add: heartbeatTick_def)
  have d: "distinct ?ids"
    using assms(2) by (simp add: staleSessionIds_alt distinctIds_def distinct_map_filter)
  have sub: "set ?ids \<subseteq> sessionId ` set (allSessions st)"
    by (auto simp: staleSessionIds_alt)
  note main = removeStale_gateway [OF assms d sub, folded st']
  have all: "allSessions ?st' = filter (\<lambda>s. \<not> isStale now st s) (allSessions st)"
  proof -
    have "filter (\<lambda>s. sessionId s \<notin> set ?ids) (allSessions st)
          = filter (\<lambda>s. \<not> isStale now st s) (allSessions st)"
      by (rule filter_cong) (simp_all add: stale_id_iff [OF assms(2)])
    with main show ?thesis by simp
  qed
  have con: "console ?st' = console st @ map LogStale ?ids"
    using main by simp
  have adv: "advances st ?st'" using main by simp
  have each: "readyState (conns ?st' (ws s)) \<noteq> 1
             \<and> (\<forall>(rid, pr) \<in> set (pendingRequests s).
                   map_of (timers ?st') (timeoutId pr) = None
                   \<and> promises ?st' (promiseOf pr) \<noteq> Pending
                   \<and> (promises st (promiseOf pr) = Pending \<longrightarrow>
                        promises ?st' (promiseOf pr) = Rejected connectionLost))
             \<and> getSession (sessionId s) ?st' = None
             \<and> (\<forall>k'. sessionId s \<notin> set (map infoSessionId
                         (fst (gateway_getActiveSessions k' ?st'))))"
    if mem: "s \<in> set (getSessions st k)" and stale: "isStale now st s" for k s
  proof -
    from mem getSessions_subset have s: "s \<in> set (allSessions st)" by blast
    with stale have "sessionId s \<in> set ?ids" by (simp add: stale_id_iff [OF assms(2)])
    with main s have ev: "evicted ?st' s" by blast
    then have c: "readyState (conns ?st' (ws s)) \<noteq> 1" by (simp add: evicted_def)
    have p: "map_of (timers ?st') (timeoutId pr) = None
             \<and> promises ?st' (promiseOf pr) \<noteq> Pending
             \<and> (promises st (promiseOf pr) = Pending \<longrightarrow>
                  promises ?st' (promiseOf pr) = Rejected connectionLost)"
      if "(rid, pr) \<in> set (pendingRequests s)" for rid pr
    proof -
      from ev that have "promises ?st' (promiseOf pr) \<noteq> Pending"
        and "map_of (timers ?st') (timeoutId pr) = None"
        by (auto simp: evicted_def list_all_iff)
      with advances_promises [OF adv, of "promiseOf pr"] show ?thesis by auto
    qed
    have absent: "sessionId s \<notin> sessionId ` set (allSessions ?st')"
    proof
      assume "sessionId s \<in> sessionId ` set (allSessions ?st')"
      then obtain s' where s': "s' \<in> set (allSessions st)" "\<not> isStale now st s'"
        "sessionId s' = sessionId s"
        by (auto simp: all)
      from same_id_same_session [OF assms(2) s'(1) s s'(3)] s'(2) stale show False by simp
    qed
    then have g: "getSession (sessionId s) ?st' = None" by (rule getSession_absent)
    have l: "sessionId s \<notin> set (map infoSessionId (fst (gateway_getActiveSessions k' ?st')))"
      for k'
    proof -
      have "set (map infoSessionId (fst (gateway_getActiveSessions k' ?st')))
            = sessionId ` set (getSessions ?st' k')"
        by (simp add: gateway_getActiveSessions_def getSessionInfo_def toInfo_def image_image)
      also have "\<dots> \<subseteq> sessionId ` set (allSessions ?st')"
        using getSessions_subset by blast
      finally show ?thesis using absent by blast
    qed
    from c p g l show ?thesis by blast
  qed
  have cfg: "heartbeatTimeout defaultConfig = 60000
       \<and> heartbeatTimeout defaultConfig = 2 * heartbeatInterval defaultConfig"
    by (simp add: defaultConfig_def SessionManager_config_def)
  from cfg staleSessionIds_alt [of now st] con all each show ?thesis
    unfolding connectionLost_eq [symmetric] by blast
qed

lemma demoSent_more:
  "console demoSent = []"
  "config demoSent = defaultConfig"
  "readyState (conns demoSent 1) = 1"
  by (simp_all add: eval_defs)

theorem C7_witness:
  "distinctKeys demoSent \<and> distinctIds demoSent
   \<and> isStale 60101 demoSent (demoSession\<lparr> pendingRequests := [(''R1'', demoPending)] \<rparr>)
   \<and> allSessions (heartbeatTick (Some gatewayOnStale) 60101 demoSent) = []
   \<and> console (heartbeatTick (Some gatewayOnStale) 60101 demoSent) = [LogStale ''S1'']
   \<and> promises (heartbeatTick (Some gatewayOnStale) 60101 demoSent) 7 = Rejected (Failure None ''CONNECTION_LOST: WebSocket connection lost'' JUndefined)
   \<and> map_of (timers (heartbeatTick (Some gatewayOnStale) 60101 demoSent)) 3 = None
   \<and> fst (gateway_getActiveSessions ''K'' (heartbeatTick (Some gatewayOnStale) 60101 demoSent)) = []"
proof -
  let ?s = "demoSession\<lparr> pendingRequests := [(''R1'', demoPending)] \<rparr>"
  let ?st' = "heartbeatTick (Some gatewayOnStale) 60101 demoSent"
  have dk: "distinctKeys demoSent"
    by (simp add: distinctKeys_def demoSent_eval)
  have all: "allSessions demoSent = [?s]"
    by (simp add: allSessions_def demoSent_eval)
  have di: "distinctIds demoSent"
    by (simp add: distinctIds_def all)
  have stale: "isStale 60101 demoSent ?s"
    by (simp add: isStale_def demoSent_more defaultConfig_def SessionManager_config_def
        demoSession_def)
  have mem: "?s \<in> set (getSessions demoSent ''K'')"
    by (simp add: getSessions_def demoSent_eval)
  note t = C7_heartbeat_tick [OF dk di, of 60101]
  from t have "allSessions ?st' = filter (\<lambda>s. \<not> isStale 60101 demoSent s) (allSessions demoSent)"
    by blast
  then have a: "allSessions ?st' = []"
    by (simp add: all stale)
  from t have "console ?st' = console demoSent @ map LogStale (staleSessionIds 60101 demoSent)"
    and "staleSessionIds 60101 demoSent
         = map sessionId (filter (isStale 60101 demoSent) (allSessions demoSent))"
    by blast+
  then have "console ?st' = console demoSent @ [LogStale (sessionId ?s)]"
    by (simp add: all stale)
  then have c: "console ?st' = [LogStale ''S1'']"
    by (simp add: demoSent_more demoSession_def)
  from t mem stale have "\<forall>(rid, pr) \<in> set (pendingRequests ?s).
                   map_of (timers ?st') (timeoutId pr) = None
                   \<and> (promises demoSent (promiseOf pr) = Pending \<longrightarrow>
                        promises ?st' (promiseOf pr) = Rejected (Failure None ''CONNECTION_LOST: WebSocket connection lost'' JUndefined))"
    by blast
  then have p: "promises ?st' 7 = Rejected (Failure None ''CONNECTION_LOST: WebSocket connection lost'' JUndefined)" and tm: "map_of (timers ?st') 3 = None"
    by (simp_all add: demoPending_def demoSent_eval)
  have "set (getSessions ?st' ''K'') \<subseteq> set (allSessions ?st')"
    by (rule getSessions_subset)
  with a have l: "fst (gateway_getActiveSessions ''K'' ?st') = []"
    by (simp add: gateway_getActiveSessions_def getSessionInfo_def)
  from dk di stale a c p tm l show ?thesis by blast
qed


section \<open>Properties of the gateway\<close>

subsection \<open>Envelopes before authentication\<close>

lemma sendError_effect:
  "sessions (sendError w c e st) = sessions st"
  "roundRobinCounters (sendError w c e st) = roundRobinCounters st"
  "timers (sendError w c e st) = timers st"
  "promises (sendError w c e st) = promises st"
  "messageLog (sendError w c e st) = messageLog st"
  "sent (conns (sendError w c e st) w) =
     (if readyState (conns st w) = 1 then sent (conns st w) @ [ErrorFrame c e]
      else sent (conns st w))"
  by (simp_all add: sendError_def wsSend_def)

lemma validateStatusMessage_cases:
  "(\<exists>e. validateStatusMessage m = Inl e) \<or> (\<exists>li rd. validateStatusMessage m = Inr (StatusData li rd))"
  by (simp add: validateStatusMessage_def)

lemma validateMessageResult_cases:
  "(\<exists>e. validateMessageResult m now = Inl e)
   \<or> (\<exists>rid ok err ts. validateMessageResult m now = Inr (ResultData rid ok err ts))"
  by (simp add: validateMessageResult_def)

lemma parseMessage_object:
  "isObject m \<Longrightarrow> truthy (getField m ''type'') \<Longrightarrow> parseMessage (Some m) = Some m"
  by (simp add: parseMessage_def isObject_iff)

lemmas gw_eval = freshGateway_def SessionManager_new_def newConn_def handleMessage_def
  parseMessage_def handleExtensionMessage_def validateHeartbeatMessage_def
  validateMessageResult_def validateStatusMessage_def handleHeartbeat_def
  handleMessageResult_def handleStatusMessage_def sendError_def wsSend_def orElse_def
  heartbeatEnvelope_def resultEnvelope_def statusEnvelope_def bogusEnvelope_def Let_def

text \<open>
  Claim C8, as stated, fails. On a new connection, open and not authenticated, a heartbeat
  envelope and a message-result envelope get no reply at all, and an envelope of an
  unknown type is not ignored: it is answered with a \<^verbatim>\<open>VALIDATION_ERROR\<close> frame.
\<close>

theorem C8_counterexample:
  "\<not> authenticated (conns freshGateway 1) \<and> readyState (conns freshGateway 1) = 1
   \<and> sent (conns (handleMessage 1 (Some heartbeatEnvelope) (KeyResult JNull) ''S9'' 5 freshGateway) 1) = []
   \<and> sent (conns (handleMessage 1 (Some resultEnvelope) (KeyResult JNull) ''S9'' 5 freshGateway) 1) = []
   \<and> sent (conns (handleMessage 1 (Some bogusEnvelope) (KeyResult JNull) ''S9'' 5 freshGateway) 1)
       = [ErrorFrame ''VALIDATION_ERROR'' (UnknownMessageType (JStr ''bogus''))]"
  by (simp add: gw_eval)

text \<open>
  Claim C8, amended. On a connection that has not authenticated, for an envelope that is
  an object with a type: a heartbeat envelope, and a message-result envelope that passes
  validation, are dropped without a reply and without any change of state; a status
  envelope that passes validation is answered with the \<^verbatim>\<open>NOT_AUTHENTICATED\<close> error;
  a message-result or status envelope that fails validation, and an envelope of any type
  other than the four inbound ones, is answered with a \<^verbatim>\<open>VALIDATION_ERROR\<close>. An
  error reply is a frame sent on the connection if its socket is open, and it changes
  nothing in the registry, the timers, the promises or the message log.
\<close>

theorem C8_pre_auth_envelopes:
  assumes "\<not> authenticated (conns st w)" and "isObject m" and "truthy (getField m ''type'')"
  shows "(getField m ''type'' = JStr ''heartbeat'' \<longrightarrow>
            handleMessage w (Some m) kc sid now st = st)
       \<and> (getField m ''type'' = JStr ''message-result'' \<longrightarrow>
            handleMessage w (Some m) kc sid now st =
              (case validateMessageResult m now of
                 Inr d \<Rightarrow> st
               | Inl e \<Rightarrow> sendError w ''VALIDATION_ERROR'' e st))
       \<and> (getField m ''type'' = JStr ''status'' \<longrightarrow>
            handleMessage w (Some m) kc sid now st =
              (case validateStatusMessage m of
                 Inr d \<Rightarrow> sendError w ''NOT_AUTHENTICATED'' (Msg ''Not authenticated'') st
               | Inl e \<Rightarrow> sendError w ''VALIDATION_ERROR'' e st))
       \<and> (getField m ''type'' \<notin> {JStr ''auth'', JStr ''status'', JStr ''message-result'',
                                  JStr ''heartbeat''} \<longrightarrow>
            handleMessage w (Some m) kc sid now st =
              sendError w ''VALIDATION_ERROR'' (UnknownMessageType (getField m ''type'')) st)
       \<and> sessions (sendError w c e st) = sessions st
       \<and> roundRobinCounters (sendError w c e st) = roundRobinCounters st
       \<and> timers (sendError w c e st) = timers st
       \<and> promises (sendError w c e st) = promises st
       \<and> messageLog (sendError w c e st) = messageLog st
       \<and> sent (conns (sendError w c e st) w) =
           (if readyState (conns st w) = 1 then sent (conns st w) @ [ErrorFrame c e]
            else sent (conns st w))"
proof -
  note p = parseMessage_object [OF assms(2,3)]
  have hb: "handleMessage w (Some m) kc sid now st = st"
    if "getField m ''type'' = JStr ''heartbeat''"
    using that assms(1)
    by (simp add: handleMessage_def p handleExtensionMessage_def validateHeartbeatMessage_def
        handleHeartbeat_def)
  have res: "handleMessage w (Some m) kc sid now st =
              (case validateMessageResult m now of
                 Inr d \<Rightarrow> st
               | Inl e \<Rightarrow> sendError w ''VALIDATION_ERROR'' e st)"
    if "getField m ''type'' = JStr ''message-result''"
    using that assms(1) validateMessageResult_cases [of m now]
    by (auto simp: handleMessage_def p handleExtensionMessage_def handleMessageResult_def)
  have stat: "handleMessage w (Some m) kc sid now st =
              (case validateStatusMessage m of
                 Inr d \<Rightarrow> sendError w ''NOT_AUTHENTICATED'' (Msg ''Not authenticated'') st
               | Inl e \<Rightarrow> sendError w ''VALIDATION_ERROR'' e st)"
    if "getField m ''type'' = JStr ''status''"
    using that assms(1) validateStatusMessage_cases [of m]
    by (auto simp: handleMessage_def p handleExtensionMessage_def handleStatusMessage_def)
  have other: "handleMessage w (Some m) kc sid now st =
              sendError w ''VALIDATION_ERROR'' (UnknownMessageType (getField m ''type'')) st"
    if "getField m ''type'' \<notin> {JStr ''auth'', JStr ''status'', JStr ''message-result'',
                                  JStr ''heartbeat''}"
    using that by (simp add: handleMessage_def p handleExtensionMessage_def)
  from hb res stat other sendError_effect [of w c e st] show ?thesis by blast
qed

theorem C8_witness:
  "\<not> authenticated (conns freshGateway 1)
   \<and> handleMessage 1 (Some heartbeatEnvelope) (KeyResult JNull) ''S9'' 5 freshGateway = freshGateway
   \<and> handleMessage 1 (Some resultEnvelope) (KeyResult JNull) ''S9'' 5 freshGateway = freshGateway
   \<and> sent (conns (handleMessage 1 (Some statusEnvelope) (KeyResult JNull) ''S9'' 5 freshGateway) 1)
       = [ErrorFrame ''NOT_AUTHENTICATED'' (Msg ''Not authenticated'')]"
proof -
  have a: "\<not> authenticated (conns freshGateway 1)"
    by (simp add: freshGateway_def SessionManager_new_def newConn_def)
  have o: "isObject heartbeatEnvelope" "isObject resultEnvelope" "isObject statusEnvelope"
    by (simp_all add: isObject_def heartbeatEnvelope_def resultEnvelope_def statusEnvelope_def)
  have t: "truthy (getField heartbeatEnvelope ''type'')" "truthy (getField resultEnvelope ''type'')"
    "truthy (getField statusEnvelope ''type'')"
    by (simp_all add: heartbeatEnvelope_def resultEnvelope_def statusEnvelope_def)
  from C8_pre_auth_envelopes [OF a o(1) t(1), of "KeyResult JNull" "''S9''" 5]
  have h: "handleMessage 1 (Some heartbeatEnvelope) (KeyResult JNull) ''S9'' 5 freshGateway = freshGateway"
    by (simp add: heartbeatEnvelope_def)
  from C8_pre_auth_envelopes [OF a o(2) t(2), of "KeyResult JNull" "''S9''" 5]
  have r: "handleMessage 1 (Some resultEnvelope) (KeyResult JNull) ''S9'' 5 freshGateway = freshGateway"
    by (simp add: resultEnvelope_def validateMessageResult_def orElse_def)
  from C8_pre_auth_envelopes [OF a o(3) t(3), of "KeyResult JNull" "''S9''" 5
      "''NOT_AUTHENTICATED''" "Msg ''Not authenticated''"]
  have s: "sent (conns (handleMessage 1 (Some statusEnvelope) (KeyResult JNull) ''S9'' 5 freshGateway) 1)
       = [ErrorFrame ''NOT_AUTHENTICATED'' (Msg ''Not authenticated'')]"
    by (simp add: statusEnvelope_def validateStatusMessage_def freshGateway_def
        SessionManager_new_def newConn_def)
  from a h r s show ?thesis by blast
qed


subsection \<open>Timeouts and late acknowledgements\<close>

lemma resolvePendingRequest_False:
  assumes "fst (resolvePendingRequest sid rid res st) = False"
  shows "getSession sid st = None
         \<or> (\<exists>s. getSession sid st = Some s \<and> map_of (pendingRequests s) rid = None)"
proof (cases "getSession sid st")
  case None
  then show ?thesis by simp
next
  case (Some s)
  show ?thesis
  proof (cases "map_of (pendingRequests s) rid")
    case None
    with Some show ?thesis by simp
  next
    case (Some pr)
    with \<open>getSession sid st = Some s\<close> assms show ?thesis
      by (simp add: resolvePendingRequest_found)
  qed
qed

lemma resolve_after_timeout:
  assumes "map_of (timers st) tid = Some (RequestTimeout sid rid h)"
  shows "resolvePendingRequest sid rid res (fireTimer tid st) = (False, fireTimer tid st)"
proof -
  let ?st0 = "st\<lparr> timers := AList.delete tid (timers st) \<rparr>"
  let ?st1 = "snd (resolvePendingRequest sid rid JNull ?st0)"
  have f: "fireTimer tid st = rejectPromise h requestTimeoutError ?st1"
    using assms by (simp add: fireTimer_def Let_def)
  from resolve_twice [where sid = sid and rid = rid and res = JNull and st = ?st0
      and ?res2.0 = res]
  have "resolvePendingRequest sid rid res ?st1 = (False, ?st1)"
    by (simp add: split_def)
  then have "fst (resolvePendingRequest sid rid res ?st1) = False" by simp
  from resolvePendingRequest_False [OF this]
  have "getSession sid (rejectPromise h requestTimeoutError ?st1) = None
         \<or> (\<exists>s. getSession sid (rejectPromise h requestTimeoutError ?st1) = Some s
                \<and> map_of (pendingRequests s) rid = None)"
    by simp
  from resolvePendingRequest_missing [OF this] f show ?thesis by simp
qed

lemma resolve_after_removeSession:
  assumes "distinctKeys st" and "distinctIds st"
  shows "resolvePendingRequest sid rid res (snd (removeSession sid st))
         = (False, snd (removeSession sid st))"
proof -
  have "sid \<notin> sessionId ` set (allSessions (snd (removeSession sid st)))"
    by (auto simp: removeSession_allSessions [OF assms])
  then have "getSession sid (snd (removeSession sid st)) = None"
    by (rule getSession_absent)
  then show ?thesis by (simp add: resolvePendingRequest_missing)
qed

text \<open>
  Claim C2. Take any state, session id and request id, and call \<open>resolvePendingRequest\<close>
  twice in a row. The first call returns true exactly when the session exists and holds
  an entry for the request id; then the entry's timer is no longer armed, the entry is
  gone from the session's pending map, and the promise has been resolved with the result
  (a promise that was already settled keeps its value). When the first call returns
  false, it leaves the state as it was. Whatever the first call did, the second call
  returns false and leaves the state, and so the promise, unchanged. A call also returns
  false and changes nothing when it comes after the request's timer has fired, and
  (session ids being unique) when it comes after the session has been removed.
\<close>

theorem C2_resolve_at_most_once:
  "(case resolvePendingRequest sid rid res st of
      (r1, st1) \<Rightarrow>
        resolvePendingRequest sid rid res2 st1 = (False, st1)
        \<and> r1 = (\<exists>s pr. getSession sid st = Some s \<and> map_of (pendingRequests s) rid = Some pr)
        \<and> (r1 \<longrightarrow>
             (\<exists>s pr. getSession sid st = Some s \<and> map_of (pendingRequests s) rid = Some pr
                \<and> map_of (timers st1) (timeoutId pr) = None
                \<and> getSession sid st1 =
                    Some (s\<lparr> pendingRequests := AList.delete rid (pendingRequests s) \<rparr>)
                \<and> promises st1 =
                    (promises st)(promiseOf pr :=
                       (case promises st (promiseOf pr) of Pending \<Rightarrow> Fulfilled res | p \<Rightarrow> p))))
        \<and> (\<not> r1 \<longrightarrow> st1 = st))
   \<and> (map_of (timers st) tid = Some (RequestTimeout sid rid h) \<longrightarrow>
        resolvePendingRequest sid rid res (fireTimer tid st) = (False, fireTimer tid st))
   \<and> (distinctKeys st \<and> distinctIds st \<longrightarrow>
        resolvePendingRequest sid rid res (snd (removeSession sid st))
          = (False, snd (removeSession sid st)))"
  using resolve_twice [where sid = sid and rid = rid and res = res and st = st and ?res2.0 = res2]
    resolve_after_timeout [of st tid sid rid h res]
    resolve_after_removeSession [of st sid rid res]
  by blast

theorem C2_witness:
  "fst (resolvePendingRequest ''S1'' ''R1'' (JBool True) demoSent)
   \<and> promises (snd (resolvePendingRequest ''S1'' ''R1'' (JBool True) demoSent)) 7
       = Fulfilled (JBool True)
   \<and> resolvePendingRequest ''S1'' ''R1'' (JBool False)
        (snd (resolvePendingRequest ''S1'' ''R1'' (JBool True) demoSent))
       = (False, snd (resolvePendingRequest ''S1'' ''R1'' (JBool True) demoSent))
   \<and> resolvePendingRequest ''S1'' ''R1'' (JBool True) (fireTimer 3 demoSent)
       = (False, fireTimer 3 demoSent)
   \<and> resolvePendingRequest ''S1'' ''R1'' (JBool True) (snd (removeSession ''S1'' demoSent))
       = (False, snd (removeSession ''S1'' demoSent))"
proof -
  have dk: "distinctKeys demoSent"
    by (simp add: distinctKeys_def demoSent_eval)
  have di: "distinctIds demoSent"
    by (simp add: distinctIds_def allSessions_def demoSent_eval)
  have tm: "map_of (timers demoSent) 3 = Some (RequestTimeout ''S1'' ''R1'' 7)"
    by (simp add: demoSent_eval)
  from C2_resolve_at_most_once
    [where sid = "''S1''" and rid = "''R1''" and res = "JBool True" and st = demoSent
       and ?res2.0 = "JBool False" and tid = 3 and h = 7] dk di tm
  show ?thesis
    by (auto simp: demoSent_getSession demoSent_eval demoPending_def split: prod.splits)
qed

subsection \<open>What the caller of a send operation observes\<close>

text \<open>When a request's timer fires while its entry is still in the session's pending map
  and its promise is pending, the promise ends up fulfilled with \<^verbatim>\<open>null\<close>.\<close>

lemma fireTimer_fulfils_with_null:
  assumes "map_of (timers st) tid = Some (RequestTimeout sid rid h)"
    and "getSession sid st = Some s" and "map_of (pendingRequests s) rid = Some pr"
    and "promiseOf pr = h" and "promises st h = Pending"
  shows "promises (fireTimer tid st) h = Fulfilled JNull"
proof -
  let ?st0 = "st\<lparr> timers := AList.delete tid (timers st) \<rparr>"
  have g: "getSession sid ?st0 = Some s" using assms(2) by (simp add: getSession_def)
  from promises_after_resolve [OF g assms(3), of JNull] assms(4,5)
  have "promises (snd (resolvePendingRequest sid rid JNull ?st0)) h = Fulfilled JNull"
    by simp
  with assms(1) show ?thesis
    by (simp add: fireTimer_def Let_def rejectPromise_def settle_def)
qed

text \<open>The same happens at once when the selected session's socket is not open: the
  caller's promise is fulfilled with \<^verbatim>\<open>null\<close>, not rejected with
  \<^verbatim>\<open>CONNECTION_LOST\<close>.\<close>

lemma sendMessage_not_open_fulfils_with_null:
  "fst (sendMessage ''K'' demoData ''R1'' 7 3 150 0 demoClosed) = Inr 7
   \<and> callOutcome (Inr 7) (snd (sendMessage ''K'' demoData ''R1'' 7 3 150 0 demoClosed))
       = Fulfilled JNull"
  by (simp add: eval_defs demoClosed_def callOutcome_def resolvePendingRequest_def
      clearTimeout_def resolvePromise_def rejectPromise_def settle_def)

end
